theory Spec2Isabelle
  imports Main
begin

section \<open>The pipeline store of bytebase: data model\<close>

text \<open>
  The development embeds \<^verbatim>\<open>PipelineService\<close> (package \<^verbatim>\<open>store\<close>) and
  \<^verbatim>\<open>ProjectMemberRaw.ToProjectMember\<close> (package \<^verbatim>\<open>api\<close>). Go's \<^verbatim>\<open>int\<close> and
  \<^verbatim>\<open>int64\<close> values are only copied and compared here, never computed with, so they are
  \<open>int\<close>. A nil-able pointer field is an \<open>option\<close>.
\<close>

subsection \<open>API messages\<close>

text \<open>\<^verbatim>\<open>api.PipelineRaw\<close>, with the seven fields the \<^verbatim>\<open>Scan\<close> calls fill.\<close>

record pipelineRaw =
  ID :: int
  CreatorID :: int
  CreatedTs :: int
  UpdaterID :: int
  UpdatedTs :: int
  Name :: string
  Status :: string

text \<open>\<^verbatim>\<open>api.PipelineCreate\<close>: the fields \<^verbatim>\<open>createPipeline\<close> reads.\<close>

record pipelineCreate =
  create_CreatorID :: int
  create_Name :: string

text \<open>\<^verbatim>\<open>api.PipelineFind\<close>: both filters are pointers, nil meaning "no filter".\<close>

record pipelineFind =
  find_ID :: "int option"
  find_Status :: "string option"

text \<open>\<^verbatim>\<open>api.PipelinePatch\<close>: \<^verbatim>\<open>Status\<close> is a pointer, nil meaning "no change".\<close>

record pipelinePatch =
  patch_ID :: int
  patch_UpdaterID :: int
  patch_Status :: "string option"

subsection \<open>Errors\<close>

text \<open>
  \<^verbatim>\<open>common.Error{Code, Err}\<close> with the two codes the service uses, \<^verbatim>\<open>fmt.Errorf\<close>
  (kept as its format string and its operands, in order), and the errors that come from
  outside the service (driver, cache), which are opaque.
\<close>

datatype code = NotFound | Conflict

datatype operand = IntOperand int | FindOperand pipelineFind

datatype error =
    Errorf string "operand list"
  | CommonError code error
  | External string

subsection \<open>SQL statements as the service builds them\<close>

datatype column =
  Col_id | Col_creator_id | Col_created_ts | Col_updater_id | Col_updated_ts | Col_name | Col_status

datatype sqlval = IntV int | StrV string

text \<open>\<open>Param n\<close> is the placeholder \<^verbatim>\<open>$n\<close>, counted from 1.\<close>

datatype expr = Param nat | Lit sqlval

text \<open>A conjunct of a WHERE clause: \<^verbatim>\<open>1 = 1\<close> or \<^verbatim>\<open>column = expr\<close>.\<close>

datatype cond = Always | Eq column expr

datatype stmt =
    Insert "(column \<times> expr) list" "column list"
  | Select "column list" "cond list"
  | Update "(column \<times> expr) list" cond "column list"

text \<open>The column list shared by the SELECT and by both RETURNING clauses.\<close>

definition pipeline_columns :: "column list" where
  "pipeline_columns =
     [Col_id, Col_creator_id, Col_created_ts, Col_updater_id, Col_updated_ts, Col_name, Col_status]"

subsection \<open>The environment: calls that can fail, and what the schema assigns\<close>

text \<open>
  Modelled from the spec: \<^verbatim>\<open>FormatError\<close>, the database driver, the table schema and
  the cache service are not part of the sources. Every call into them can fail, and the
  environment says which do. \<open>FormatError\<close> is called on non-nil errors only and, a store
  failure being always surfaced, returns an error; which one is left open. The schema
  assigns \<open>id\<close> and both timestamps on INSERT (\<open>now\<close>), and \<open>on_update\<close> is what it does to
  \<open>updated_ts\<close> of a row an UPDATE touches.
\<close>

record env =
  FormatError :: "error \<Rightarrow> error"
  begin_err :: "error option"
  query_err :: "error option"
  rows_err :: "error option"
  scan_err :: "error option"
  commit_err :: "error option"
  upsert_err :: "int \<Rightarrow> error option"
  find_cache_err :: "error option"
  now :: int
  on_update :: "int \<Rightarrow> int"

subsection \<open>The relational store\<close>

text \<open>A transaction works on its own copy of the table and of the id sequence.\<close>

record tx =
  tx_rows :: "pipelineRaw list"
  tx_next_id :: int

fun eval_expr :: "sqlval list \<Rightarrow> expr \<Rightarrow> sqlval option" where
  "eval_expr args (Lit v) = Some v"
| "eval_expr args (Param n) =
     (if 1 \<le> n \<and> n \<le> length args then Some (args ! (n - 1)) else None)"

fun col_val :: "column \<Rightarrow> pipelineRaw \<Rightarrow> sqlval" where
  "col_val Col_id r = IntV (ID r)"
| "col_val Col_creator_id r = IntV (CreatorID r)"
| "col_val Col_created_ts r = IntV (CreatedTs r)"
| "col_val Col_updater_id r = IntV (UpdaterID r)"
| "col_val Col_updated_ts r = IntV (UpdatedTs r)"
| "col_val Col_name r = StrV (Name r)"
| "col_val Col_status r = StrV (Status r)"

text \<open>Storing a value of the wrong type in a column is refused.\<close>

fun set_col :: "column \<Rightarrow> sqlval \<Rightarrow> pipelineRaw \<Rightarrow> pipelineRaw option" where
  "set_col Col_id (IntV v) r = Some (r\<lparr>ID := v\<rparr>)"
| "set_col Col_creator_id (IntV v) r = Some (r\<lparr>CreatorID := v\<rparr>)"
| "set_col Col_created_ts (IntV v) r = Some (r\<lparr>CreatedTs := v\<rparr>)"
| "set_col Col_updater_id (IntV v) r = Some (r\<lparr>UpdaterID := v\<rparr>)"
| "set_col Col_updated_ts (IntV v) r = Some (r\<lparr>UpdatedTs := v\<rparr>)"
| "set_col Col_name (StrV v) r = Some (r\<lparr>Name := v\<rparr>)"
| "set_col Col_status (StrV v) r = Some (r\<lparr>Status := v\<rparr>)"
| "set_col _ _ r = None"

fun assign :: "sqlval list \<Rightarrow> (column \<times> expr) list \<Rightarrow> pipelineRaw \<Rightarrow> pipelineRaw option" where
  "assign args [] r = Some r"
| "assign args ((c, e) # as) r =
     (case eval_expr args e of
        None \<Rightarrow> None
      | Some v \<Rightarrow> (case set_col c v r of None \<Rightarrow> None | Some r' \<Rightarrow> assign args as r'))"

fun holds :: "sqlval list \<Rightarrow> cond \<Rightarrow> pipelineRaw \<Rightarrow> bool option" where
  "holds args Always r = Some True"
| "holds args (Eq c e) r =
     (case eval_expr args e of None \<Rightarrow> None | Some v \<Rightarrow> Some (col_val c r = v))"

fun holds_all :: "sqlval list \<Rightarrow> cond list \<Rightarrow> pipelineRaw \<Rightarrow> bool option" where
  "holds_all args [] r = Some True"
| "holds_all args (c # cs) r =
     (case holds args c r of
        None \<Rightarrow> None
      | Some b \<Rightarrow> (case holds_all args cs r of None \<Rightarrow> None | Some b' \<Rightarrow> Some (b \<and> b')))"

definition project :: "column list \<Rightarrow> pipelineRaw \<Rightarrow> sqlval list" where
  "project cs r = map (\<lambda>c. col_val c r) cs"

text \<open>SELECT: the rows that satisfy every conjunct, in table order.\<close>

fun select_rows :: "sqlval list \<Rightarrow> cond list \<Rightarrow> pipelineRaw list \<Rightarrow> pipelineRaw list option" where
  "select_rows args cs [] = Some []"
| "select_rows args cs (r # rs) =
     (case holds_all args cs r of
        None \<Rightarrow> None
      | Some b \<Rightarrow>
          (case select_rows args cs rs of
             None \<Rightarrow> None
           | Some out \<Rightarrow> Some (if b then r # out else out)))"

text \<open>
  UPDATE: every row that satisfies the WHERE clause gets the SET list applied; the result
  is the new table and the rows that were updated (for RETURNING).
\<close>

fun update_rows ::
  "env \<Rightarrow> sqlval list \<Rightarrow> (column \<times> expr) list \<Rightarrow> cond \<Rightarrow> pipelineRaw list \<Rightarrow>
   (pipelineRaw list \<times> pipelineRaw list) option" where
  "update_rows env args sets w [] = Some ([], [])"
| "update_rows env args sets w (r # rs) =
     (case holds args w r of
        None \<Rightarrow> None
      | Some b \<Rightarrow>
          (case update_rows env args sets w rs of
             None \<Rightarrow> None
           | Some (rs', out) \<Rightarrow>
               if b then
                 (case assign args sets (r\<lparr>UpdatedTs := on_update env (UpdatedTs r)\<rparr>) of
                    None \<Rightarrow> None
                  | Some r' \<Rightarrow> Some (r' # rs', r' # out))
               else Some (r # rs', out)))"

text \<open>INSERT: one new row, with the id and the timestamps the schema assigns.\<close>

definition fresh_row :: "env \<Rightarrow> tx \<Rightarrow> pipelineRaw" where
  "fresh_row env t =
     \<lparr>ID = tx_next_id t, CreatorID = 0, CreatedTs = now env, UpdaterID = 0,
      UpdatedTs = now env, Name = [], Status = []\<rparr>"

fun exec_stmt :: "env \<Rightarrow> tx \<Rightarrow> stmt \<Rightarrow> sqlval list \<Rightarrow> (sqlval list list \<times> tx) option" where
  "exec_stmt env t (Insert sets ret) args =
     (case assign args sets (fresh_row env t) of
        None \<Rightarrow> None
      | Some r \<Rightarrow>
          Some ([project ret r], t\<lparr>tx_rows := tx_rows t @ [r], tx_next_id := tx_next_id t + 1\<rparr>))"
| "exec_stmt env t (Select cs ws) args =
     (case select_rows args ws (tx_rows t) of
        None \<Rightarrow> None
      | Some out \<Rightarrow> Some (map (project cs) out, t))"
| "exec_stmt env t (Update sets w ret) args =
     (case update_rows env args sets w (tx_rows t) of
        None \<Rightarrow> None
      | Some (rs', out) \<Rightarrow> Some (map (project ret) out, t\<lparr>tx_rows := rs'\<rparr>))"

text \<open>
  \<^verbatim>\<open>tx.QueryContext\<close>: an error, or a cursor over the result rows. A statement the store
  cannot run (a placeholder without an argument, a value of the wrong type) is an error
  as well.
\<close>

definition QueryContext ::
  "env \<Rightarrow> tx \<Rightarrow> stmt \<Rightarrow> sqlval list \<Rightarrow> (error + sqlval list list) \<times> tx" where
  "QueryContext env t q args =
     (case query_err env of
        Some err \<Rightarrow> (Inl err, t)
      | None \<Rightarrow>
          (case exec_stmt env t q args of
             None \<Rightarrow> (Inl (External ''query refused''), t)
           | Some (out, t') \<Rightarrow> (Inr out, t')))"

text \<open>
  The cursor: \<^verbatim>\<open>Next\<close> delivers the rows in order; when iteration fails
  (\<open>rows_err\<close>) it delivers none and \<^verbatim>\<open>Err\<close> reports the failure.
\<close>

definition delivered :: "env \<Rightarrow> sqlval list list \<Rightarrow> sqlval list list" where
  "delivered env out = (case rows_err env of Some err \<Rightarrow> [] | None \<Rightarrow> out)"

text \<open>
  \<^verbatim>\<open>Scan\<close> into the seven fields of a \<^verbatim>\<open>PipelineRaw\<close>, in the order of the source's
  destination list.
\<close>

fun scan_fields :: "sqlval list \<Rightarrow> pipelineRaw option" where
  "scan_fields [IntV a, IntV b, IntV c, IntV d, IntV e, StrV n, StrV s] =
     Some \<lparr>ID = a, CreatorID = b, CreatedTs = c, UpdaterID = d, UpdatedTs = e,
           Name = n, Status = s\<rparr>"
| "scan_fields _ = None"

definition Scan :: "env \<Rightarrow> sqlval list \<Rightarrow> error + pipelineRaw" where
  "Scan env vs =
     (case scan_err env of
        Some err \<Rightarrow> Inl err
      | None \<Rightarrow>
          (case scan_fields vs of
             None \<Rightarrow> Inl (External ''scan refused'')
           | Some p \<Rightarrow> Inr p))"

section \<open>The service\<close>

subsection \<open>State and observable calls\<close>

text \<open>
  Every call the service makes into the store or the cache is recorded, in order, so that
  "before", "after" and "without" can be stated. \<open>Commit ok\<close> records whether the
  commit succeeded. \<open>Rollback\<close> is the deferred \<^verbatim>\<open>tx.PTx.Rollback()\<close>, which runs on
  every return after \<^verbatim>\<open>BeginTx\<close> succeeded and is a no-op after a commit.
\<close>

datatype event =
    BeginTx
  | Query stmt "sqlval list"
  | Commit bool
  | Rollback
  | FindCache int
  | UpsertCache int pipelineRaw

text \<open>
  \<open>rows\<close> and \<open>next_id\<close> are the committed table and id sequence; \<open>cache\<close> is the
  \<^verbatim>\<open>api.PipelineCache\<close> namespace of the cache service, keyed by id.
\<close>

record state =
  rows :: "pipelineRaw list"
  next_id :: int
  cache :: "int \<Rightarrow> pipelineRaw option"
  trace :: "event list"

definition record_calls :: "event list \<Rightarrow> state \<Rightarrow> state" where
  "record_calls evs s = s\<lparr>trace := trace s @ evs\<rparr>"

definition begin_tx :: "state \<Rightarrow> tx" where
  "begin_tx s = \<lparr>tx_rows = rows s, tx_next_id = next_id s\<rparr>"

definition commit_tx :: "tx \<Rightarrow> state \<Rightarrow> state" where
  "commit_tx t s = s\<lparr>rows := tx_rows t, next_id := tx_next_id t\<rparr>"

text \<open>\<^verbatim>\<open>s.cache.UpsertCache(api.PipelineCache, id, p)\<close>: nil, or an error and no write.\<close>

definition UpsertCache_call :: "env \<Rightarrow> int \<Rightarrow> pipelineRaw \<Rightarrow> state \<Rightarrow> error option \<times> state" where
  "UpsertCache_call env i p s =
     (case upsert_err env i of
        Some err \<Rightarrow> (Some err, record_calls [UpsertCache i p] s)
      | None \<Rightarrow> (None, record_calls [UpsertCache i p] (s\<lparr>cache := (cache s)(i \<mapsto> p)\<rparr>)))"

text \<open>\<^verbatim>\<open>s.cache.FindCache(api.PipelineCache, id, &out)\<close>: an error, or the entry if any.\<close>

definition FindCache_call :: "env \<Rightarrow> int \<Rightarrow> state \<Rightarrow> (error + pipelineRaw option) \<times> state" where
  "FindCache_call env i s =
     (case find_cache_err env of
        Some err \<Rightarrow> (Inl err, record_calls [FindCache i] s)
      | None \<Rightarrow> (Inr (cache s i), record_calls [FindCache i] s))"

subsection \<open>\<^verbatim>\<open>createPipeline\<close>\<close>

definition insert_stmt :: stmt where
  "insert_stmt =
     Insert [(Col_creator_id, Param 1), (Col_updater_id, Param 2), (Col_name, Param 3),
             (Col_status, Lit (StrV ''OPEN''))]
            pipeline_columns"

definition insert_args :: "pipelineCreate \<Rightarrow> sqlval list" where
  "insert_args create =
     [IntV (create_CreatorID create), IntV (create_CreatorID create), StrV (create_Name create)]"

text \<open>
  The result of \<^verbatim>\<open>row.Next()\<close> is not looked at. When \<^verbatim>\<open>Next\<close> delivered no row,
  \<^verbatim>\<open>Scan\<close> returns the error of the failed iteration, or, the cursor being at its end
  and closed, the error of \<^verbatim>\<open>database/sql\<close> for a closed cursor.
\<close>

definition createPipeline ::
  "env \<Rightarrow> tx \<Rightarrow> pipelineCreate \<Rightarrow> (error + pipelineRaw) \<times> tx \<times> event list" where
  "createPipeline env t create =
     (case QueryContext env t insert_stmt (insert_args create) of
        (Inl err, t') \<Rightarrow> (Inl (FormatError env err), t', [Query insert_stmt (insert_args create)])
      | (Inr out, t') \<Rightarrow>
          (case (case delivered env out of
                   [] \<Rightarrow> Inl (case rows_err env of Some err \<Rightarrow> err
                                | None \<Rightarrow> External ''sql: Rows are closed'')
                 | vs # _ \<Rightarrow> Scan env vs) of
             Inl err \<Rightarrow> (Inl (FormatError env err), t', [Query insert_stmt (insert_args create)])
           | Inr pipelineRaw \<Rightarrow> (Inr pipelineRaw, t', [Query insert_stmt (insert_args create)])))"

subsection \<open>\<^verbatim>\<open>CreatePipeline\<close>\<close>

definition CreatePipeline ::
  "env \<Rightarrow> state \<Rightarrow> pipelineCreate \<Rightarrow> (error + pipelineRaw) \<times> state" where
  "CreatePipeline env s create =
     (case begin_err env of
        Some err \<Rightarrow> (Inl (FormatError env err), record_calls [BeginTx] s)
      | None \<Rightarrow>
          (case createPipeline env (begin_tx s) create of
             (Inl err, t, evs) \<Rightarrow> (Inl err, record_calls (BeginTx # evs @ [Rollback]) s)
           | (Inr pipeline, t, evs) \<Rightarrow>
               (case commit_err env of
                  Some err \<Rightarrow>
                    (Inl (FormatError env err),
                     record_calls (BeginTx # evs @ [Commit False, Rollback]) s)
                | None \<Rightarrow>
                    (case UpsertCache_call env (ID pipeline) pipeline
                            (record_calls (BeginTx # evs @ [Commit True]) (commit_tx t s)) of
                       (Some err, s') \<Rightarrow> (Inl err, record_calls [Rollback] s')
                     | (None, s') \<Rightarrow> (Inr pipeline, record_calls [Rollback] s')))))"

subsection \<open>\<^verbatim>\<open>findPipelineList\<close>\<close>

text \<open>
  The WHERE clause and its arguments, built as the source does: each filter that is set
  appends a conjunct on placeholder \<^verbatim>\<open>len(args)+1\<close> and its value.
\<close>

definition find_where :: "pipelineFind \<Rightarrow> cond list \<times> sqlval list" where
  "find_where find' =
     (let (where', args) = ([Always], []);
          (where', args) =
            (case find_ID find' of
               Some v \<Rightarrow> (where' @ [Eq Col_id (Param (length args + 1))], args @ [IntV v])
             | None \<Rightarrow> (where', args));
          (where', args) =
            (case find_Status find' of
               Some v \<Rightarrow> (where' @ [Eq Col_status (Param (length args + 1))], args @ [StrV v])
             | None \<Rightarrow> (where', args))
      in (where', args))"

text \<open>The loop over \<^verbatim>\<open>rows.Next()\<close>: scan each row, stop at the first scan error.\<close>

fun scan_all :: "env \<Rightarrow> sqlval list list \<Rightarrow> pipelineRaw list \<Rightarrow> error + pipelineRaw list" where
  "scan_all env [] pipelineRawList = Inr pipelineRawList"
| "scan_all env (vs # rest) pipelineRawList =
     (case Scan env vs of
        Inl err \<Rightarrow> Inl err
      | Inr pipelineRaw \<Rightarrow> scan_all env rest (pipelineRawList @ [pipelineRaw]))"

definition findPipelineList ::
  "env \<Rightarrow> tx \<Rightarrow> pipelineFind \<Rightarrow> (error + pipelineRaw list) \<times> tx \<times> event list" where
  "findPipelineList env t find' =
     (let (where', args) = find_where find';
          q = Select pipeline_columns where'
      in case QueryContext env t q args of
           (Inl err, t') \<Rightarrow> (Inl (FormatError env err), t', [Query q args])
         | (Inr out, t') \<Rightarrow>
             (case scan_all env (delivered env out) [] of
                Inl err \<Rightarrow> (Inl (FormatError env err), t', [Query q args])
              | Inr pipelineRawList \<Rightarrow>
                  (case rows_err env of
                     Some err \<Rightarrow> (Inl (FormatError env err), t', [Query q args])
                   | None \<Rightarrow> (Inr pipelineRawList, t', [Query q args]))))"

subsection \<open>\<^verbatim>\<open>FindPipeline\<close>\<close>

definition conflict_error :: "nat \<Rightarrow> pipelineFind \<Rightarrow> error" where
  "conflict_error n find' =
     CommonError Conflict
       (Errorf ''found %d pipelines with filter %+v, expect 1''
          [IntOperand (int n), FindOperand find'])"

text \<open>The part of \<^verbatim>\<open>FindPipeline\<close> after the cache probe: the store lookup.\<close>

definition FindPipeline_store ::
  "env \<Rightarrow> state \<Rightarrow> pipelineFind \<Rightarrow> (error + pipelineRaw option) \<times> state" where
  "FindPipeline_store env s find' =
     (case begin_err env of
        Some err \<Rightarrow> (Inl (FormatError env err), record_calls [BeginTx] s)
      | None \<Rightarrow>
          (case findPipelineList env (begin_tx s) find' of
             (Inl err, t, evs) \<Rightarrow> (Inl err, record_calls (BeginTx # evs @ [Rollback]) s)
           | (Inr pipelineRawList, t, evs) \<Rightarrow>
               (case pipelineRawList of
                  [] \<Rightarrow> (Inr None, record_calls (BeginTx # evs @ [Rollback]) s)
                | p # rest \<Rightarrow>
                    if length pipelineRawList > 1 then
                      (Inl (conflict_error (length pipelineRawList) find'),
                       record_calls (BeginTx # evs @ [Rollback]) s)
                    else
                      (case UpsertCache_call env (ID p) p (record_calls (BeginTx # evs) s) of
                         (Some err, s') \<Rightarrow> (Inl err, record_calls [Rollback] s')
                       | (None, s') \<Rightarrow> (Inr (Some p), record_calls [Rollback] s')))))"

text \<open>
  The result is \<open>Inl err\<close> for \<^verbatim>\<open>(nil, err)\<close>, \<open>Inr None\<close> for \<^verbatim>\<open>(nil, nil)\<close> and
  \<open>Inr (Some p)\<close> for \<^verbatim>\<open>(p, nil)\<close>.
\<close>

definition FindPipeline ::
  "env \<Rightarrow> state \<Rightarrow> pipelineFind \<Rightarrow> (error + pipelineRaw option) \<times> state" where
  "FindPipeline env s find' =
     (case find_ID find' of
        Some i \<Rightarrow>
          (case FindCache_call env i s of
             (Inl err, s') \<Rightarrow> (Inl err, s')
           | (Inr (Some pipelineRaw), s') \<Rightarrow> (Inr (Some pipelineRaw), s')
           | (Inr None, s') \<Rightarrow> FindPipeline_store env s' find')
      | None \<Rightarrow> FindPipeline_store env s find')"

subsection \<open>\<^verbatim>\<open>patchPipeline\<close>\<close>

text \<open>
  The SET list and the arguments, built as the source does: \<^verbatim>\<open>updater_id = $1\<close> always,
  \<^verbatim>\<open>status = $n\<close> when the patch has a status, then the id for the WHERE clause on the
  last placeholder.
\<close>

definition patch_update :: "pipelinePatch \<Rightarrow> stmt \<times> sqlval list" where
  "patch_update patch =
     (let (set', args) = ([(Col_updater_id, Param 1)], [IntV (patch_UpdaterID patch)]);
          (set', args) =
            (case patch_Status patch of
               Some v \<Rightarrow> (set' @ [(Col_status, Param (length args + 1))], args @ [StrV v])
             | None \<Rightarrow> (set', args));
          args = args @ [IntV (patch_ID patch)]
      in (Update set' (Eq Col_id (Param (length args))) pipeline_columns, args))"

definition not_found_error :: "int \<Rightarrow> error" where
  "not_found_error i = CommonError NotFound (Errorf ''pipeline ID not found: %d'' [IntOperand i])"

definition patchPipeline ::
  "env \<Rightarrow> tx \<Rightarrow> pipelinePatch \<Rightarrow> (error + pipelineRaw) \<times> tx \<times> event list" where
  "patchPipeline env t patch =
     (let (q, args) = patch_update patch
      in case QueryContext env t q args of
           (Inl err, t') \<Rightarrow> (Inl (FormatError env err), t', [Query q args])
         | (Inr out, t') \<Rightarrow>
             (case delivered env out of
                vs # _ \<Rightarrow>
                  (case Scan env vs of
                     Inl err \<Rightarrow> (Inl (FormatError env err), t', [Query q args])
                   | Inr pipelineRaw \<Rightarrow> (Inr pipelineRaw, t', [Query q args]))
              | [] \<Rightarrow> (Inl (not_found_error (patch_ID patch)), t', [Query q args])))"

subsection \<open>\<^verbatim>\<open>PatchPipeline\<close>\<close>

definition PatchPipeline ::
  "env \<Rightarrow> state \<Rightarrow> pipelinePatch \<Rightarrow> (error + pipelineRaw) \<times> state" where
  "PatchPipeline env s patch =
     (case begin_err env of
        Some err \<Rightarrow> (Inl (FormatError env err), record_calls [BeginTx] s)
      | None \<Rightarrow>
          (case patchPipeline env (begin_tx s) patch of
             (Inl err, t, evs) \<Rightarrow>
               (Inl (FormatError env err), record_calls (BeginTx # evs @ [Rollback]) s)
           | (Inr pipelineRaw, t, evs) \<Rightarrow>
               (case commit_err env of
                  Some err \<Rightarrow>
                    (Inl (FormatError env err),
                     record_calls (BeginTx # evs @ [Commit False, Rollback]) s)
                | None \<Rightarrow>
                    (case UpsertCache_call env (ID pipelineRaw) pipelineRaw
                            (record_calls (BeginTx # evs @ [Commit True]) (commit_tx t s)) of
                       (Some err, s') \<Rightarrow> (Inl err, record_calls [Rollback] s')
                     | (None, s') \<Rightarrow> (Inr pipelineRaw, record_calls [Rollback] s')))))"

subsection \<open>\<^verbatim>\<open>ToProjectMember\<close>\<close>

text \<open>
  \<^verbatim>\<open>api.ProjectMemberRaw\<close> and \<^verbatim>\<open>api.ProjectMember\<close>. \<^verbatim>\<open>ProjectRoleProvider\<close> is a
  string type. The three \<^verbatim>\<open>*Principal\<close> fields of the API message are pointers to a type
  the sources do not include, here the parameter \<open>'p\<close>.
\<close>

record projectMemberRaw =
  raw_ID :: int
  raw_CreatorID :: int
  raw_CreatedTs :: int
  raw_UpdaterID :: int
  raw_UpdatedTs :: int
  raw_ProjectID :: int
  raw_Role :: string
  raw_PrincipalID :: int
  raw_RoleProvider :: string
  raw_Payload :: string

record 'p projectMember =
  pm_ID :: int
  pm_CreatorID :: int
  pm_Creator :: "'p option"
  pm_CreatedTs :: int
  pm_UpdaterID :: int
  pm_Updater :: "'p option"
  pm_UpdatedTs :: int
  pm_ProjectID :: int
  pm_Role :: string
  pm_PrincipalID :: int
  pm_Principal :: "'p option"
  pm_RoleProvider :: string
  pm_Payload :: string

definition ToProjectMember :: "projectMemberRaw \<Rightarrow> 'p projectMember" where
  "ToProjectMember raw =
     \<lparr>pm_ID = raw_ID raw,
      pm_CreatorID = raw_CreatorID raw,
      pm_Creator = None,
      pm_CreatedTs = raw_CreatedTs raw,
      pm_UpdaterID = raw_UpdaterID raw,
      pm_Updater = None,
      pm_UpdatedTs = raw_UpdatedTs raw,
      pm_ProjectID = raw_PrincipalID raw,
      pm_Role = raw_Role raw,
      pm_PrincipalID = raw_PrincipalID raw,
      pm_Principal = None,
      pm_RoleProvider = raw_RoleProvider raw,
      pm_Payload = raw_Payload raw\<rparr>"

section \<open>Notions used to state the properties\<close>

text \<open>The row the INSERT of \<^verbatim>\<open>createPipeline\<close> adds, and the transaction after it.\<close>

definition inserted_row :: "env \<Rightarrow> tx \<Rightarrow> pipelineCreate \<Rightarrow> pipelineRaw" where
  "inserted_row env t create =
     \<lparr>ID = tx_next_id t, CreatorID = create_CreatorID create, CreatedTs = now env,
      UpdaterID = create_CreatorID create, UpdatedTs = now env, Name = create_Name create,
      Status = ''OPEN''\<rparr>"

definition after_insert :: "env \<Rightarrow> tx \<Rightarrow> pipelineCreate \<Rightarrow> tx" where
  "after_insert env t create =
     t\<lparr>tx_rows := tx_rows t @ [inserted_row env t create], tx_next_id := tx_next_id t + 1\<rparr>"

text \<open>What the UPDATE of \<^verbatim>\<open>patchPipeline\<close> makes of a row it matches, and of the table.\<close>

definition patched_row :: "env \<Rightarrow> pipelinePatch \<Rightarrow> pipelineRaw \<Rightarrow> pipelineRaw" where
  "patched_row env patch r =
     (case patch_Status patch of
        Some v \<Rightarrow>
          r\<lparr>UpdaterID := patch_UpdaterID patch, UpdatedTs := on_update env (UpdatedTs r),
            Status := v\<rparr>
      | None \<Rightarrow>
          r\<lparr>UpdaterID := patch_UpdaterID patch, UpdatedTs := on_update env (UpdatedTs r)\<rparr>)"

definition patched_rows :: "env \<Rightarrow> pipelinePatch \<Rightarrow> pipelineRaw list \<Rightarrow> pipelineRaw list" where
  "patched_rows env patch rs =
     map (\<lambda>r. if ID r = patch_ID patch then patched_row env patch r else r) rs"

definition patch_targets :: "pipelinePatch \<Rightarrow> pipelineRaw list \<Rightarrow> pipelineRaw list" where
  "patch_targets patch rs = filter (\<lambda>r. ID r = patch_ID patch) rs"

definition after_update :: "env \<Rightarrow> tx \<Rightarrow> pipelinePatch \<Rightarrow> tx" where
  "after_update env t patch = t\<lparr>tx_rows := patched_rows env patch (tx_rows t)\<rparr>"

definition patch_query :: "pipelinePatch \<Rightarrow> event" where
  "patch_query patch = Query (fst (patch_update patch)) (snd (patch_update patch))"

text \<open>The rows a find request asks for: every filter that is set must agree.\<close>

definition find_matches :: "pipelineFind \<Rightarrow> pipelineRaw \<Rightarrow> bool" where
  "find_matches find' r =
     ((case find_ID find' of Some v \<Rightarrow> ID r = v | None \<Rightarrow> True) \<and>
      (case find_Status find' of Some v \<Rightarrow> Status r = v | None \<Rightarrow> True))"

definition find_query :: "pipelineFind \<Rightarrow> event" where
  "find_query find' = Query (Select pipeline_columns (fst (find_where find'))) (snd (find_where find'))"

text \<open>
  A trace in which every cache write comes after a successful commit; the flag says
  whether one has been seen.
\<close>

fun upserts_after_commit :: "bool \<Rightarrow> event list \<Rightarrow> bool" where
  "upserts_after_commit committed [] = True"
| "upserts_after_commit committed (Commit ok # evs) = upserts_after_commit (committed \<or> ok) evs"
| "upserts_after_commit committed (UpsertCache i p # evs) =
     (committed \<and> upserts_after_commit committed evs)"
| "upserts_after_commit committed (ev # evs) = upserts_after_commit committed evs"

fun is_upsert :: "event \<Rightarrow> bool" where
  "is_upsert (UpsertCache i p) = True"
| "is_upsert ev = False"

fun is_update :: "event \<Rightarrow> bool" where
  "is_update (Query (Update sets w ret) args) = True"
| "is_update ev = False"

fun opens_tx :: "event \<Rightarrow> bool" where
  "opens_tx BeginTx = True"
| "opens_tx (Query q args) = True"
| "opens_tx ev = False"

text \<open>
  Modelled from the spec: the lifecycle state machine of a Pipeline, which the sources do
  not contain: \<^verbatim>\<open>OPEN\<close> to \<^verbatim>\<open>DONE\<close> and \<^verbatim>\<open>OPEN\<close> to \<^verbatim>\<open>CANCELED\<close> are the only edges;
  \<^verbatim>\<open>DONE\<close> and \<^verbatim>\<open>CANCELED\<close> are terminal.
\<close>

definition permitted_edge :: "string \<Rightarrow> string \<Rightarrow> bool" where
  "permitted_edge from to = (from = ''OPEN'' \<and> (to = ''DONE'' \<or> to = ''CANCELED''))"

subsection \<open>A concrete store for the examples\<close>

text \<open>An environment in which no call fails and \<open>FormatError\<close> returns its argument.\<close>

definition sound_env :: env where
  "sound_env =
     \<lparr>FormatError = (\<lambda>err. err), begin_err = None, query_err = None, rows_err = None,
      scan_err = None, commit_err = None, upsert_err = (\<lambda>i. None), find_cache_err = None,
      now = 100, on_update = (\<lambda>ts. ts + 1)\<rparr>"

text \<open>The same, with a cache service that refuses every write.\<close>

definition cache_down_env :: env where
  "cache_down_env = sound_env\<lparr>upsert_err := (\<lambda>i. Some (External ''cache unavailable''))\<rparr>"

text \<open>The same as \<open>sound_env\<close>, with a store that refuses to commit.\<close>

definition commit_down_env :: env where
  "commit_down_env = sound_env\<lparr>commit_err := Some (External ''commit failed'')\<rparr>"

definition done_row :: pipelineRaw where
  "done_row =
     \<lparr>ID = 1, CreatorID = 7, CreatedTs = 50, UpdaterID = 7, UpdatedTs = 50,
      Name = ''release-42'', Status = ''DONE''\<rparr>"

definition open_row :: pipelineRaw where
  "open_row =
     \<lparr>ID = 2, CreatorID = 7, CreatedTs = 60, UpdaterID = 7, UpdatedTs = 60,
      Name = ''release-43'', Status = ''OPEN''\<rparr>"

text \<open>One finished pipeline in the table, nothing cached, no call made yet.\<close>

definition one_done :: state where
  "one_done = \<lparr>rows = [done_row], next_id = 2, cache = (\<lambda>i. None), trace = []\<rparr>"

text \<open>Two pipelines in the table; the cache holds the finished one.\<close>

definition two_rows :: state where
  "two_rows =
     \<lparr>rows = [done_row, open_row], next_id = 3, cache = (\<lambda>i. None)(1 \<mapsto> done_row), trace = []\<rparr>"

definition reopen_patch :: pipelinePatch where
  "reopen_patch = \<lparr>patch_ID = 1, patch_UpdaterID = 9, patch_Status = Some ''OPEN''\<rparr>"

definition touch_patch :: pipelinePatch where
  "touch_patch = \<lparr>patch_ID = 1, patch_UpdaterID = 9, patch_Status = None\<rparr>"

definition missing_patch :: pipelinePatch where
  "missing_patch = \<lparr>patch_ID = 5, patch_UpdaterID = 9, patch_Status = Some ''DONE''\<rparr>"

definition release_create :: pipelineCreate where
  "release_create = \<lparr>create_CreatorID = 5, create_Name = ''release-44''\<rparr>"

section \<open>The store runs the statements as intended\<close>

lemma scan_fields_project: "scan_fields (project pipeline_columns r) = Some r"
  by (simp add: project_def pipeline_columns_def)

lemma Scan_project:
  "Scan env (project pipeline_columns r) = (case scan_err env of Some err \<Rightarrow> Inl err | None \<Rightarrow> Inr r)"
  by (simp add: Scan_def scan_fields_project split: option.splits)

lemma exec_insert:
  "exec_stmt env t insert_stmt (insert_args create) =
     Some ([project pipeline_columns (inserted_row env t create)], after_insert env t create)"
  by (simp add: insert_stmt_def insert_args_def fresh_row_def inserted_row_def after_insert_def)

lemma update_rows_patch:
  assumes "patch_update patch = (Update sets w ret, args)"
  shows "update_rows env args sets w rs =
           Some (patched_rows env patch rs, map (patched_row env patch) (patch_targets patch rs))"
proof (induction rs)
  case Nil
  show ?case by (simp add: patched_rows_def patch_targets_def)
next
  case (Cons r rs)
  from assms have hold: "holds args w r = Some (ID r = patch_ID patch)"
    by (auto simp add: patch_update_def split: option.splits)
  from assms have asg:
    "assign args sets (r\<lparr>UpdatedTs := on_update env (UpdatedTs r)\<rparr>) = Some (patched_row env patch r)"
    by (auto simp add: patch_update_def patched_row_def split: option.splits)
  show ?case
    using Cons.IH hold asg by (simp add: patched_rows_def patch_targets_def)
qed

lemma patch_update_shape:
  "\<exists>sets w args. patch_update patch = (Update sets w pipeline_columns, args)"
  by (simp add: patch_update_def split: option.splits)

lemma exec_update:
  "exec_stmt env t (fst (patch_update patch)) (snd (patch_update patch)) =
     Some (map (project pipeline_columns) (map (patched_row env patch) (patch_targets patch (tx_rows t))),
           after_update env t patch)"
proof -
  obtain sets w args where pu: "patch_update patch = (Update sets w pipeline_columns, args)"
    using patch_update_shape by blast
  show ?thesis
    by (simp add: pu update_rows_patch [OF pu] after_update_def)
qed

lemma holds_all_find:
  "holds_all (snd (find_where f)) (fst (find_where f)) r = Some (find_matches f r)"
  by (simp add: find_where_def find_matches_def split: option.splits)

lemma select_rows_find:
  "select_rows (snd (find_where f)) (fst (find_where f)) rs = Some (filter (find_matches f) rs)"
  by (induction rs) (simp_all add: holds_all_find)

lemma scan_all_project:
  "scan_err env = None \<Longrightarrow> scan_all env (map (project pipeline_columns) rs) acc = Inr (acc @ rs)"
  by (induction rs arbitrary: acc) (simp_all add: Scan_project)

section \<open>The three inner functions\<close>

lemma createPipeline_calls: "snd (snd (createPipeline env t create)) = [Query insert_stmt (insert_args create)]"
  by (simp add: createPipeline_def split: prod.splits sum.splits)

lemma createPipeline_ok:
  assumes "query_err env = None" "rows_err env = None" "scan_err env = None"
  shows "createPipeline env t create =
           (Inr (inserted_row env t create), after_insert env t create,
            [Query insert_stmt (insert_args create)])"
  using assms
  by (simp add: createPipeline_def QueryContext_def exec_insert delivered_def Scan_project)

lemma createPipeline_Inr:
  assumes "createPipeline env t create = (Inr p, t', evs)"
  shows "p = inserted_row env t create \<and> t' = after_insert env t create"
  using assms
  by (auto simp add: createPipeline_def QueryContext_def exec_insert delivered_def Scan_project
      split: option.splits sum.splits list.splits)

lemma patchPipeline_calls: "snd (snd (patchPipeline env t patch)) = [patch_query patch]"
  by (simp add: patchPipeline_def patch_query_def split: prod.splits sum.splits list.splits)

lemma patchPipeline_query_ok:
  assumes "query_err env = None"
  shows "patchPipeline env t patch =
           (case (case rows_err env of Some err \<Rightarrow> [] | None \<Rightarrow> patch_targets patch (tx_rows t)) of
              [] \<Rightarrow> Inl (not_found_error (patch_ID patch))
            | r # rest \<Rightarrow>
                (case scan_err env of
                   Some err \<Rightarrow> Inl (FormatError env err)
                 | None \<Rightarrow> Inr (patched_row env patch r)),
            after_update env t patch, [patch_query patch])"
  using assms
  by (simp add: patchPipeline_def QueryContext_def exec_update delivered_def Scan_project
      patch_query_def case_prod_beta split: option.splits list.splits)

lemma patchPipeline_Inr:
  assumes "patchPipeline env t patch = (Inr p, t', evs)"
  shows "t' = after_update env t patch \<and>
         (\<exists>r rest. patch_targets patch (tx_rows t) = r # rest \<and> p = patched_row env patch r)"
proof (cases "query_err env")
  case None
  from assms show ?thesis
    unfolding patchPipeline_query_ok [OF None]
    by (auto split: option.splits list.splits)
next
  case (Some err)
  with assms show ?thesis
    by (simp add: patchPipeline_def QueryContext_def split: prod.splits)
qed

lemma findPipelineList_calls: "snd (snd (findPipelineList env t f)) = [find_query f]"
  by (simp add: findPipelineList_def find_query_def case_prod_beta Let_def
      split: sum.splits option.splits)

lemma findPipelineList_ok:
  assumes "query_err env = None" "rows_err env = None" "scan_err env = None"
  shows "findPipelineList env t f = (Inr (filter (find_matches f) (tx_rows t)), t, [find_query f])"
  using assms
  by (simp add: findPipelineList_def QueryContext_def select_rows_find delivered_def
      scan_all_project find_query_def case_prod_beta Let_def)

section \<open>The public operations, path by path\<close>

lemma inserted_row_ID [simp]: "ID (inserted_row env t create) = tx_next_id t"
  by (simp add: inserted_row_def)

lemma patched_row_ID [simp]: "ID (patched_row env patch r) = ID r"
  by (simp add: patched_row_def split: option.splits)

lemma patched_row_UpdaterID: "UpdaterID (patched_row env patch r) = patch_UpdaterID patch"
  by (simp add: patched_row_def split: option.splits)

lemma patched_row_Status: "patch_Status patch = Some v \<Longrightarrow> Status (patched_row env patch r) = v"
  by (simp add: patched_row_def)

lemma patched_row_frame:
  "ID (patched_row env patch r) = ID r"
  "CreatorID (patched_row env patch r) = CreatorID r"
  "CreatedTs (patched_row env patch r) = CreatedTs r"
  "Name (patched_row env patch r) = Name r"
  "patch_Status patch = None \<Longrightarrow> Status (patched_row env patch r) = Status r"
  by (simp_all add: patched_row_def split: option.splits)

lemma patch_targets_Cons_ID:
  assumes "patch_targets patch rs = r # rest"
  shows "ID r = patch_ID patch"
proof -
  have "r \<in> set (filter (\<lambda>r. ID r = patch_ID patch) rs)"
    using assms by (simp add: patch_targets_def)
  then show ?thesis by simp
qed

lemma patch_targets_head_in:
  assumes "patch_targets patch rs = r # rest"
  shows "r \<in> set rs"
proof -
  have "r \<in> set (filter (\<lambda>r. ID r = patch_ID patch) rs)"
    using assms by (simp add: patch_targets_def)
  then show ?thesis by simp
qed

lemma patch_targets_none:
  assumes "\<forall>r\<in>set rs. ID r \<noteq> patch_ID patch"
  shows "patch_targets patch rs = []"
  using assms by (simp add: patch_targets_def)

lemma patched_rows_frame:
  "map ID (patched_rows env patch rs) = map ID rs"
  "map CreatorID (patched_rows env patch rs) = map CreatorID rs"
  "map CreatedTs (patched_rows env patch rs) = map CreatedTs rs"
  "map Name (patched_rows env patch rs) = map Name rs"
  "patch_Status patch = None \<Longrightarrow> map Status (patched_rows env patch rs) = map Status rs"
  by (simp_all add: patched_rows_def patched_row_frame)

lemma patched_rows_other:
  "k < length rs \<Longrightarrow> ID (rs ! k) \<noteq> patch_ID patch \<Longrightarrow> patched_rows env patch rs ! k = rs ! k"
  by (simp add: patched_rows_def)

lemma patched_rows_changed:
  assumes "r \<in> set rs" "ID r = patch_ID patch" "patched_row env patch r \<noteq> r"
  shows "patched_rows env patch rs \<noteq> rs"
proof
  assume "patched_rows env patch rs = rs"
  then have "map (\<lambda>r. if ID r = patch_ID patch then patched_row env patch r else r) rs =
             map (\<lambda>r. r) rs"
    by (simp add: patched_rows_def)
  then have "\<forall>x\<in>set rs. (if ID x = patch_ID patch then patched_row env patch x else x) = x"
    unfolding map_eq_conv .
  with assms show False by auto
qed

lemma patch_query_not_upsert: "\<not> is_upsert (patch_query patch)"
  by (simp add: patch_query_def)

lemma patch_query_is_update: "is_update (patch_query patch)"
  by (simp add: patch_query_def patch_update_def split: option.splits)

subsection \<open>\<^verbatim>\<open>CreatePipeline\<close>\<close>

lemma CreatePipeline_begin_fails:
  assumes "begin_err env = Some err"
  shows "CreatePipeline env s create = (Inl (FormatError env err), s\<lparr>trace := trace s @ [BeginTx]\<rparr>)"
  using assms by (simp add: CreatePipeline_def record_calls_def)

lemma CreatePipeline_inner_fails:
  assumes "begin_err env = None" "createPipeline env (begin_tx s) create = (Inl err, t, evs)"
  shows "CreatePipeline env s create =
           (Inl err, s\<lparr>trace := trace s @ [BeginTx, Query insert_stmt (insert_args create), Rollback]\<rparr>)"
proof -
  from createPipeline_calls [of env "begin_tx s" create] assms(2)
  have "evs = [Query insert_stmt (insert_args create)]" by simp
  with assms show ?thesis by (simp add: CreatePipeline_def record_calls_def)
qed

lemma CreatePipeline_commit_fails:
  assumes "begin_err env = None" "createPipeline env (begin_tx s) create = (Inr p, t, evs)"
    "commit_err env = Some err"
  shows "CreatePipeline env s create =
           (Inl (FormatError env err),
            s\<lparr>trace := trace s @ [BeginTx, Query insert_stmt (insert_args create), Commit False, Rollback]\<rparr>)"
proof -
  from createPipeline_calls [of env "begin_tx s" create] assms(2)
  have "evs = [Query insert_stmt (insert_args create)]" by simp
  with assms show ?thesis by (simp add: CreatePipeline_def record_calls_def)
qed

lemma CreatePipeline_committed:
  assumes "begin_err env = None" "createPipeline env (begin_tx s) create = (Inr p, t, evs)"
    "commit_err env = None"
  shows "CreatePipeline env s create =
           (case upsert_err env (next_id s) of
              Some err \<Rightarrow>
                (Inl err,
                 s\<lparr>rows := rows s @ [inserted_row env (begin_tx s) create],
                   next_id := next_id s + 1,
                   trace := trace s @ [BeginTx, Query insert_stmt (insert_args create), Commit True,
                     UpsertCache (next_id s) (inserted_row env (begin_tx s) create), Rollback]\<rparr>)
            | None \<Rightarrow>
                (Inr (inserted_row env (begin_tx s) create),
                 s\<lparr>rows := rows s @ [inserted_row env (begin_tx s) create],
                   next_id := next_id s + 1,
                   cache := (cache s)(next_id s \<mapsto> inserted_row env (begin_tx s) create),
                   trace := trace s @ [BeginTx, Query insert_stmt (insert_args create), Commit True,
                     UpsertCache (next_id s) (inserted_row env (begin_tx s) create), Rollback]\<rparr>))"
proof -
  from createPipeline_calls [of env "begin_tx s" create] assms(2)
  have evs: "evs = [Query insert_stmt (insert_args create)]" by simp
  from createPipeline_Inr [OF assms(2)]
  have p: "p = inserted_row env (begin_tx s) create" and t: "t = after_insert env (begin_tx s) create"
    by simp_all
  have "CreatePipeline env s create =
          (case UpsertCache_call env (ID p) p
                  (record_calls (BeginTx # evs @ [Commit True]) (commit_tx t s)) of
             (Some err, s') \<Rightarrow> (Inl err, record_calls [Rollback] s')
           | (None, s') \<Rightarrow> (Inr p, record_calls [Rollback] s'))"
    using assms by (simp add: CreatePipeline_def)
  then show ?thesis
    by (simp add: evs p t UpsertCache_call_def record_calls_def commit_tx_def after_insert_def
        begin_tx_def split: option.splits)
qed

lemma CreatePipeline_all_ok:
  assumes "begin_err env = None" "query_err env = None" "rows_err env = None"
    "scan_err env = None" "commit_err env = None"
  shows "CreatePipeline env s create =
           (case upsert_err env (next_id s) of
              Some err \<Rightarrow>
                (Inl err,
                 s\<lparr>rows := rows s @ [inserted_row env (begin_tx s) create],
                   next_id := next_id s + 1,
                   trace := trace s @ [BeginTx, Query insert_stmt (insert_args create), Commit True,
                     UpsertCache (next_id s) (inserted_row env (begin_tx s) create), Rollback]\<rparr>)
            | None \<Rightarrow>
                (Inr (inserted_row env (begin_tx s) create),
                 s\<lparr>rows := rows s @ [inserted_row env (begin_tx s) create],
                   next_id := next_id s + 1,
                   cache := (cache s)(next_id s \<mapsto> inserted_row env (begin_tx s) create),
                   trace := trace s @ [BeginTx, Query insert_stmt (insert_args create), Commit True,
                     UpsertCache (next_id s) (inserted_row env (begin_tx s) create), Rollback]\<rparr>))"
  using CreatePipeline_committed [OF assms(1) createPipeline_ok [OF assms(2,3,4)] assms(5)] .

lemma CreatePipeline_outcomes:
  obtains (aborted) err evs
    where "CreatePipeline env s create = (Inl err, s\<lparr>trace := trace s @ evs\<rparr>)"
      and "evs = [BeginTx] \<or> evs = [BeginTx, Query insert_stmt (insert_args create), Rollback]
           \<or> evs = [BeginTx, Query insert_stmt (insert_args create), Commit False, Rollback]"
  | (cache_failed) err
    where "begin_err env = None" and "commit_err env = None"
      and "upsert_err env (next_id s) = Some err"
      and "CreatePipeline env s create =
             (Inl err,
              s\<lparr>rows := rows s @ [inserted_row env (begin_tx s) create],
                next_id := next_id s + 1,
                trace := trace s @ [BeginTx, Query insert_stmt (insert_args create), Commit True,
                  UpsertCache (next_id s) (inserted_row env (begin_tx s) create), Rollback]\<rparr>)"
  | (created)
    "begin_err env = None" "commit_err env = None"
    "upsert_err env (next_id s) = None"
    "CreatePipeline env s create =
       (Inr (inserted_row env (begin_tx s) create),
        s\<lparr>rows := rows s @ [inserted_row env (begin_tx s) create],
          next_id := next_id s + 1,
          cache := (cache s)(next_id s \<mapsto> inserted_row env (begin_tx s) create),
          trace := trace s @ [BeginTx, Query insert_stmt (insert_args create), Commit True,
            UpsertCache (next_id s) (inserted_row env (begin_tx s) create), Rollback]\<rparr>)"
proof (cases "begin_err env")
  case (Some err)
  from CreatePipeline_begin_fails [OF Some] show ?thesis
    by (rule aborted) simp
next
  case None
  obtain res t evs where inner: "createPipeline env (begin_tx s) create = (res, t, evs)"
    by (cases "createPipeline env (begin_tx s) create") auto
  show ?thesis
  proof (cases res)
    case (Inl err)
    from CreatePipeline_inner_fails [OF None inner [unfolded Inl]] show ?thesis
      by (rule aborted) simp
  next
    case (Inr p)
    note inner' = inner [unfolded Inr]
    show ?thesis
    proof (cases "commit_err env")
      case (Some err)
      from CreatePipeline_commit_fails [OF None inner' Some] show ?thesis
        by (rule aborted) simp
    next
      case commit: None
      show ?thesis
      proof (cases "upsert_err env (next_id s)")
        case None
        with CreatePipeline_committed [OF \<open>begin_err env = None\<close> inner' commit]
          \<open>begin_err env = None\<close> commit show ?thesis
          by (intro created) simp_all
      next
        case (Some err)
        with CreatePipeline_committed [OF None inner' commit] None commit show ?thesis
          by (intro cache_failed [of err]) simp_all
      qed
    qed
  qed
qed

subsection \<open>\<^verbatim>\<open>PatchPipeline\<close>\<close>

lemma PatchPipeline_begin_fails:
  assumes "begin_err env = Some err"
  shows "PatchPipeline env s patch = (Inl (FormatError env err), s\<lparr>trace := trace s @ [BeginTx]\<rparr>)"
  using assms by (simp add: PatchPipeline_def record_calls_def)

lemma PatchPipeline_inner_fails:
  assumes "begin_err env = None" "patchPipeline env (begin_tx s) patch = (Inl err, t, evs)"
  shows "PatchPipeline env s patch =
           (Inl (FormatError env err), s\<lparr>trace := trace s @ [BeginTx, patch_query patch, Rollback]\<rparr>)"
proof -
  from patchPipeline_calls [of env "begin_tx s" patch] assms(2)
  have "evs = [patch_query patch]" by simp
  with assms show ?thesis by (simp add: PatchPipeline_def record_calls_def)
qed

lemma PatchPipeline_commit_fails:
  assumes "begin_err env = None" "patchPipeline env (begin_tx s) patch = (Inr p, t, evs)"
    "commit_err env = Some err"
  shows "PatchPipeline env s patch =
           (Inl (FormatError env err),
            s\<lparr>trace := trace s @ [BeginTx, patch_query patch, Commit False, Rollback]\<rparr>)"
proof -
  from patchPipeline_calls [of env "begin_tx s" patch] assms(2)
  have "evs = [patch_query patch]" by simp
  with assms show ?thesis by (simp add: PatchPipeline_def record_calls_def)
qed

lemma PatchPipeline_committed:
  assumes "begin_err env = None" "patchPipeline env (begin_tx s) patch = (Inr p, t, evs)"
    "commit_err env = None"
  shows "PatchPipeline env s patch =
           (case upsert_err env (patch_ID patch) of
              Some err \<Rightarrow>
                (Inl err,
                 s\<lparr>rows := patched_rows env patch (rows s),
                   trace := trace s @ [BeginTx, patch_query patch, Commit True,
                     UpsertCache (patch_ID patch) p, Rollback]\<rparr>)
            | None \<Rightarrow>
                (Inr p,
                 s\<lparr>rows := patched_rows env patch (rows s),
                   cache := (cache s)(patch_ID patch \<mapsto> p),
                   trace := trace s @ [BeginTx, patch_query patch, Commit True,
                     UpsertCache (patch_ID patch) p, Rollback]\<rparr>))"
proof -
  from patchPipeline_calls [of env "begin_tx s" patch] assms(2)
  have evs: "evs = [patch_query patch]" by simp
  from patchPipeline_Inr [OF assms(2)] obtain r rest
    where t: "t = after_update env (begin_tx s) patch"
      and tg: "patch_targets patch (tx_rows (begin_tx s)) = r # rest"
      and p: "p = patched_row env patch r"
    by blast
  have idp: "ID p = patch_ID patch"
    using patch_targets_Cons_ID [OF tg] p by simp
  have "PatchPipeline env s patch =
          (case UpsertCache_call env (ID p) p
                  (record_calls (BeginTx # evs @ [Commit True]) (commit_tx t s)) of
             (Some err, s') \<Rightarrow> (Inl err, record_calls [Rollback] s')
           | (None, s') \<Rightarrow> (Inr p, record_calls [Rollback] s'))"
    using assms by (simp add: PatchPipeline_def)
  then show ?thesis
    by (simp add: evs idp t UpsertCache_call_def record_calls_def commit_tx_def after_update_def
        begin_tx_def split: option.splits)
qed

lemma PatchPipeline_target_ok:
  assumes "begin_err env = None" "query_err env = None" "rows_err env = None"
    "scan_err env = None" "commit_err env = None"
    "patch_targets patch (rows s) = r # rest"
  shows "PatchPipeline env s patch =
           (case upsert_err env (patch_ID patch) of
              Some err \<Rightarrow>
                (Inl err,
                 s\<lparr>rows := patched_rows env patch (rows s),
                   trace := trace s @ [BeginTx, patch_query patch, Commit True,
                     UpsertCache (patch_ID patch) (patched_row env patch r), Rollback]\<rparr>)
            | None \<Rightarrow>
                (Inr (patched_row env patch r),
                 s\<lparr>rows := patched_rows env patch (rows s),
                   cache := (cache s)(patch_ID patch \<mapsto> patched_row env patch r),
                   trace := trace s @ [BeginTx, patch_query patch, Commit True,
                     UpsertCache (patch_ID patch) (patched_row env patch r), Rollback]\<rparr>))"
proof -
  have "patchPipeline env (begin_tx s) patch =
          (Inr (patched_row env patch r), after_update env (begin_tx s) patch, [patch_query patch])"
    using assms by (simp add: patchPipeline_query_ok begin_tx_def)
  from PatchPipeline_committed [OF assms(1) this assms(5)] show ?thesis .
qed

lemma PatchPipeline_zero_rows:
  assumes "begin_err env = None" "query_err env = None" "patch_targets patch (rows s) = []"
  shows "PatchPipeline env s patch =
           (Inl (FormatError env (not_found_error (patch_ID patch))),
            s\<lparr>trace := trace s @ [BeginTx, patch_query patch, Rollback]\<rparr>)"
proof -
  have "patchPipeline env (begin_tx s) patch =
          (Inl (not_found_error (patch_ID patch)), after_update env (begin_tx s) patch,
           [patch_query patch])"
    using assms(2,3) by (simp add: patchPipeline_query_ok begin_tx_def split: option.splits)
  from PatchPipeline_inner_fails [OF assms(1) this] show ?thesis .
qed

lemma PatchPipeline_outcomes:
  obtains (aborted) err evs
    where "PatchPipeline env s patch = (Inl err, s\<lparr>trace := trace s @ evs\<rparr>)"
      and "evs = [BeginTx] \<or> evs = [BeginTx, patch_query patch, Rollback]
           \<or> evs = [BeginTx, patch_query patch, Commit False, Rollback]"
  | (cache_failed) err r rest
    where "begin_err env = None" and "commit_err env = None"
      and "upsert_err env (patch_ID patch) = Some err"
      and "patch_targets patch (rows s) = r # rest"
      and "PatchPipeline env s patch =
             (Inl err,
              s\<lparr>rows := patched_rows env patch (rows s),
                trace := trace s @ [BeginTx, patch_query patch, Commit True,
                  UpsertCache (patch_ID patch) (patched_row env patch r), Rollback]\<rparr>)"
  | (patched) r rest
    where "begin_err env = None" and "commit_err env = None"
      and "upsert_err env (patch_ID patch) = None"
      and "patch_targets patch (rows s) = r # rest"
      and "PatchPipeline env s patch =
             (Inr (patched_row env patch r),
              s\<lparr>rows := patched_rows env patch (rows s),
                cache := (cache s)(patch_ID patch \<mapsto> patched_row env patch r),
                trace := trace s @ [BeginTx, patch_query patch, Commit True,
                  UpsertCache (patch_ID patch) (patched_row env patch r), Rollback]\<rparr>)"
proof (cases "begin_err env")
  case (Some err)
  from PatchPipeline_begin_fails [OF Some] show ?thesis
    by (rule aborted) simp
next
  case None
  obtain res t evs where inner: "patchPipeline env (begin_tx s) patch = (res, t, evs)"
    by (cases "patchPipeline env (begin_tx s) patch") auto
  show ?thesis
  proof (cases res)
    case (Inl err)
    from PatchPipeline_inner_fails [OF None inner [unfolded Inl]] show ?thesis
      by (rule aborted) simp
  next
    case (Inr p)
    note inner' = inner [unfolded Inr]
    from patchPipeline_Inr [OF inner'] obtain r rest
      where tg: "patch_targets patch (rows s) = r # rest" and p: "p = patched_row env patch r"
      by (auto simp add: begin_tx_def)
    show ?thesis
    proof (cases "commit_err env")
      case (Some err)
      from PatchPipeline_commit_fails [OF None inner' Some] show ?thesis
        by (rule aborted) simp
    next
      case commit: None
      show ?thesis
      proof (cases "upsert_err env (patch_ID patch)")
        case None
        with PatchPipeline_committed [OF \<open>begin_err env = None\<close> inner' commit] tg
          \<open>begin_err env = None\<close> commit show ?thesis
          by (intro patched [of r rest]) (simp_all add: p)
      next
        case (Some err)
        with PatchPipeline_committed [OF None inner' commit] tg None commit show ?thesis
          by (intro cache_failed [of err r rest]) (simp_all add: p)
      qed
    qed
  qed
qed

lemma PatchPipeline_rows:
  "rows (snd (PatchPipeline env s patch)) = rows s \<or>
   rows (snd (PatchPipeline env s patch)) = patched_rows env patch (rows s)"
  by (rule PatchPipeline_outcomes [of env s patch]) simp_all

lemma PatchPipeline_Inr_row:
  assumes "fst (PatchPipeline env s patch) = Inr p"
  shows "\<exists>r rest. patch_targets patch (rows s) = r # rest \<and> p = patched_row env patch r \<and>
           rows (snd (PatchPipeline env s patch)) = patched_rows env patch (rows s)"
  using assms by (rule_tac PatchPipeline_outcomes [of env s patch]) auto

subsection \<open>\<^verbatim>\<open>FindPipeline\<close>\<close>

lemma FindPipeline_store_ok:
  assumes "begin_err env = None" "query_err env = None" "rows_err env = None"
    "scan_err env = None"
  shows "FindPipeline_store env s f =
           (case filter (find_matches f) (rows s) of
              [] \<Rightarrow> (Inr None, s\<lparr>trace := trace s @ [BeginTx, find_query f, Rollback]\<rparr>)
            | [p] \<Rightarrow>
                (case upsert_err env (ID p) of
                   Some err \<Rightarrow>
                     (Inl err,
                      s\<lparr>trace := trace s @ [BeginTx, find_query f, UpsertCache (ID p) p, Rollback]\<rparr>)
                 | None \<Rightarrow>
                     (Inr (Some p),
                      s\<lparr>cache := (cache s)(ID p \<mapsto> p),
                        trace := trace s @ [BeginTx, find_query f, UpsertCache (ID p) p, Rollback]\<rparr>))
            | p # q # rest \<Rightarrow>
                (Inl (conflict_error (length (filter (find_matches f) (rows s))) f),
                 s\<lparr>trace := trace s @ [BeginTx, find_query f, Rollback]\<rparr>))"
  using assms
  by (simp add: FindPipeline_store_def findPipelineList_ok begin_tx_def UpsertCache_call_def
      record_calls_def split: list.splits option.splits)

lemma FindPipeline_store_trace:
  "\<exists>evs. trace (snd (FindPipeline_store env s f)) = trace s @ evs"
  by (auto simp add: FindPipeline_store_def UpsertCache_call_def record_calls_def
      split: option.splits prod.splits sum.splits list.splits)

lemma FindPipeline_hit:
  assumes "find_ID f = Some i" "find_cache_err env = None" "cache s i = Some p"
  shows "FindPipeline env s f = (Inr (Some p), s\<lparr>trace := trace s @ [FindCache i]\<rparr>)"
  using assms by (simp add: FindPipeline_def FindCache_call_def record_calls_def)

lemma FindPipeline_miss:
  assumes "find_ID f = Some i" "find_cache_err env = None" "cache s i = None"
  shows "FindPipeline env s f = FindPipeline_store env (s\<lparr>trace := trace s @ [FindCache i]\<rparr>) f"
  using assms by (simp add: FindPipeline_def FindCache_call_def record_calls_def)

lemma FindPipeline_no_id:
  assumes "find_ID f = None"
  shows "FindPipeline env s f = FindPipeline_store env s f"
  using assms by (simp add: FindPipeline_def)

lemma FindPipeline_probe_fails:
  assumes "find_ID f = Some i" "find_cache_err env = Some err"
  shows "FindPipeline env s f = (Inl err, s\<lparr>trace := trace s @ [FindCache i]\<rparr>)"
  using assms by (simp add: FindPipeline_def FindCache_call_def record_calls_def)

subsection \<open>The concrete store\<close>

lemma sound_env_calls:
  "begin_err sound_env = None" "query_err sound_env = None" "rows_err sound_env = None"
  "scan_err sound_env = None" "commit_err sound_env = None" "upsert_err sound_env i = None"
  "find_cache_err sound_env = None" "FormatError sound_env err = err"
  by (simp_all add: sound_env_def)

lemma cache_down_env_calls:
  "begin_err cache_down_env = None" "query_err cache_down_env = None"
  "rows_err cache_down_env = None" "scan_err cache_down_env = None"
  "commit_err cache_down_env = None"
  "upsert_err cache_down_env i = Some (External ''cache unavailable'')"
  by (simp_all add: cache_down_env_def sound_env_def)

lemma commit_down_env_calls:
  "begin_err commit_down_env = None" "query_err commit_down_env = None"
  "rows_err commit_down_env = None" "scan_err commit_down_env = None"
  "commit_err commit_down_env = Some (External ''commit failed'')"
  by (simp_all add: commit_down_env_def sound_env_def)

lemma one_done_fields:
  "rows one_done = [done_row]" "next_id one_done = 2" "cache one_done = (\<lambda>i. None)"
  "trace one_done = []"
  by (simp_all add: one_done_def)

lemma one_done_targets:
  "patch_targets reopen_patch (rows one_done) = [done_row]"
  "patch_targets touch_patch (rows one_done) = [done_row]"
  "patch_targets missing_patch (rows one_done) = []"
  by (simp_all add: patch_targets_def one_done_def done_row_def reopen_patch_def touch_patch_def
      missing_patch_def)

lemma two_rows_fields:
  "rows two_rows = [done_row, open_row]" "cache two_rows 1 = Some done_row"
  "cache two_rows 2 = None" "trace two_rows = []"
  by (simp_all add: two_rows_def)

lemma reopened_row:
  "patched_row sound_env reopen_patch done_row =
     \<lparr>ID = 1, CreatorID = 7, CreatedTs = 50, UpdaterID = 9, UpdatedTs = 51,
      Name = ''release-42'', Status = ''OPEN''\<rparr>"
  by (simp add: patched_row_def sound_env_def reopen_patch_def done_row_def)

section \<open>Properties of the service\<close>

subsection \<open>No lifecycle check in \<^verbatim>\<open>PatchPipeline\<close> (C1)\<close>

text \<open>
  C1, as amended. \<^verbatim>\<open>PatchPipeline\<close> does not look at the lifecycle edge: for every
  request that sets a status and targets a row of the table, whatever the row's current
  status (terminal or not, so also for an edge the state machine does not permit), when
  no store or cache call fails the UPDATE is issued, the operation returns the updated
  entity with the requested status, and every row with that id has the requested status
  in the committed table.
\<close>

theorem PatchPipeline_sets_any_status:
  assumes "begin_err env = None" "query_err env = None" "rows_err env = None"
    "scan_err env = None" "commit_err env = None" "upsert_err env (patch_ID patch) = None"
    and "r \<in> set (rows s)" "ID r = patch_ID patch" "patch_Status patch = Some v"
  shows "\<exists>p. fst (PatchPipeline env s patch) = Inr p \<and> ID p = patch_ID patch \<and> Status p = v \<and>
           trace (snd (PatchPipeline env s patch)) =
             trace s @ [BeginTx, patch_query patch, Commit True, UpsertCache (patch_ID patch) p,
                        Rollback] \<and>
           is_update (patch_query patch) \<and>
           rows (snd (PatchPipeline env s patch)) = patched_rows env patch (rows s) \<and>
           list_all (\<lambda>r'. ID r' = patch_ID patch \<longrightarrow> Status r' = v)
             (rows (snd (PatchPipeline env s patch))) \<and>
           list_ex (\<lambda>r'. ID r' = patch_ID patch \<and> Status r' = v)
             (rows (snd (PatchPipeline env s patch)))"
proof -
  from assms(7,8) have "patch_targets patch (rows s) \<noteq> []"
    by (auto simp add: patch_targets_def filter_empty_conv)
  then obtain r0 rest where tg: "patch_targets patch (rows s) = r0 # rest"
    by (cases "patch_targets patch (rows s)") auto
  note eq = PatchPipeline_target_ok [OF assms(1-5) tg]
  have all: "list_all (\<lambda>r'. ID r' = patch_ID patch \<longrightarrow> Status r' = v) (patched_rows env patch (rows s))"
    by (auto simp add: patched_rows_def list_all_iff patched_row_Status [OF assms(9)])
  have "patched_row env patch r \<in> set (patched_rows env patch (rows s))"
    using assms(7,8) by (force simp add: patched_rows_def)
  then have ex: "list_ex (\<lambda>r'. ID r' = patch_ID patch \<and> Status r' = v) (patched_rows env patch (rows s))"
    unfolding list_ex_iff using assms(8) patched_row_Status [OF assms(9)]
    by (intro bexI [of _ "patched_row env patch r"]) simp_all
  show ?thesis
    using all ex patch_targets_Cons_ID [OF tg]
    by (intro exI [of _ "patched_row env patch r0"])
       (simp add: eq assms(6) patched_row_Status [OF assms(9)] patch_query_is_update)
qed

theorem PatchPipeline_sets_any_status_witness:
  "fst (PatchPipeline sound_env one_done reopen_patch) =
     Inr \<lparr>ID = 1, CreatorID = 7, CreatedTs = 50, UpdaterID = 9, UpdatedTs = 51,
          Name = ''release-42'', Status = ''OPEN''\<rparr>"
proof -
  have a: "done_row \<in> set (rows one_done)" "ID done_row = patch_ID reopen_patch"
    "patch_Status reopen_patch = Some ''OPEN''"
    by (simp_all add: one_done_def done_row_def reopen_patch_def)
  from PatchPipeline_sets_any_status [OF sound_env_calls(1-6) a]
  obtain p where p: "fst (PatchPipeline sound_env one_done reopen_patch) = Inr p"
    and rws: "rows (snd (PatchPipeline sound_env one_done reopen_patch)) =
                patched_rows sound_env reopen_patch (rows one_done)"
    and tr: "trace (snd (PatchPipeline sound_env one_done reopen_patch)) =
             trace one_done @ [BeginTx, patch_query reopen_patch, Commit True,
               UpsertCache (patch_ID reopen_patch) p, Rollback]"
    by blast
  from PatchPipeline_target_ok [OF sound_env_calls(1-5) one_done_targets(1)] p
  show ?thesis
    by (simp add: sound_env_calls(6) reopened_row)
qed

text \<open>
  C1 as stated fails: \<^verbatim>\<open>DONE\<close> to \<^verbatim>\<open>OPEN\<close> is not an edge of the state machine, yet the
  patch that asks for it on a finished pipeline succeeds: the UPDATE is issued and
  committed, and the stored row is \<^verbatim>\<open>OPEN\<close> again.
\<close>

theorem PatchPipeline_reopens_DONE_counterexample:
  "\<not> permitted_edge (Status done_row) ''OPEN'' \<and>
   patch_Status reopen_patch = Some ''OPEN'' \<and>
   fst (PatchPipeline sound_env one_done reopen_patch) =
     Inr \<lparr>ID = 1, CreatorID = 7, CreatedTs = 50, UpdaterID = 9, UpdatedTs = 51,
          Name = ''release-42'', Status = ''OPEN''\<rparr> \<and>
   trace (snd (PatchPipeline sound_env one_done reopen_patch)) =
     [BeginTx,
      Query (Update [(Col_updater_id, Param 1), (Col_status, Param 2)] (Eq Col_id (Param 3))
               pipeline_columns)
            [IntV 9, StrV ''OPEN'', IntV 1],
      Commit True,
      UpsertCache 1
        \<lparr>ID = 1, CreatorID = 7, CreatedTs = 50, UpdaterID = 9, UpdatedTs = 51,
         Name = ''release-42'', Status = ''OPEN''\<rparr>,
      Rollback] \<and>
   rows one_done = [done_row] \<and>
   Status done_row = ''DONE'' \<and>
   rows (snd (PatchPipeline sound_env one_done reopen_patch)) =
     [\<lparr>ID = 1, CreatorID = 7, CreatedTs = 50, UpdaterID = 9, UpdatedTs = 51,
       Name = ''release-42'', Status = ''OPEN''\<rparr>]"
proof -
  have q: "patch_query reopen_patch =
      Query (Update [(Col_updater_id, Param 1), (Col_status, Param 2)] (Eq Col_id (Param 3))
               pipeline_columns)
            [IntV 9, StrV ''OPEN'', IntV 1]"
    by (simp add: patch_query_def patch_update_def reopen_patch_def)
  have rs: "patched_rows sound_env reopen_patch [done_row] =
      [\<lparr>ID = 1, CreatorID = 7, CreatedTs = 50, UpdaterID = 9, UpdatedTs = 51,
        Name = ''release-42'', Status = ''OPEN''\<rparr>]"
    using reopened_row by (simp add: patched_rows_def) (simp add: done_row_def reopen_patch_def)
  have id: "patch_ID reopen_patch = 1" "patch_Status reopen_patch = Some ''OPEN''"
    by (simp_all add: reopen_patch_def)
  have st: "Status done_row = ''DONE''" "\<not> permitted_edge ''DONE'' ''OPEN''"
    by (simp_all add: done_row_def permitted_edge_def)
  from PatchPipeline_target_ok [OF sound_env_calls(1-5) one_done_targets(1)]
  show ?thesis
    by (simp add: sound_env_calls(6) one_done_fields reopened_row q rs id st)
qed

subsection \<open>The cache is written after the commit only (C2)\<close>

text \<open>
  C2. In every execution of \<^verbatim>\<open>CreatePipeline\<close> and of \<^verbatim>\<open>PatchPipeline\<close>, among the calls
  the operation makes every cache upsert comes after a successful commit; when
  \<^verbatim>\<open>BeginTx\<close> or the commit fails there is no successful commit, and in every execution
  without a successful commit the cache is unchanged and no upsert is called.
\<close>

theorem cache_write_only_after_commit:
  "(\<exists>evs. trace (snd (CreatePipeline env s create)) = trace s @ evs \<and>
          upserts_after_commit False evs \<and>
          (begin_err env \<noteq> None \<or> commit_err env \<noteq> None \<longrightarrow> Commit True \<notin> set evs) \<and>
          (Commit True \<notin> set evs \<longrightarrow>
             cache (snd (CreatePipeline env s create)) = cache s \<and> \<not> list_ex is_upsert evs)) \<and>
   (\<exists>evs. trace (snd (PatchPipeline env s patch)) = trace s @ evs \<and>
          upserts_after_commit False evs \<and>
          (begin_err env \<noteq> None \<or> commit_err env \<noteq> None \<longrightarrow> Commit True \<notin> set evs) \<and>
          (Commit True \<notin> set evs \<longrightarrow>
             cache (snd (PatchPipeline env s patch)) = cache s \<and> \<not> list_ex is_upsert evs))"
proof
  show "\<exists>evs. trace (snd (CreatePipeline env s create)) = trace s @ evs \<and>
          upserts_after_commit False evs \<and>
          (begin_err env \<noteq> None \<or> commit_err env \<noteq> None \<longrightarrow> Commit True \<notin> set evs) \<and>
          (Commit True \<notin> set evs \<longrightarrow>
             cache (snd (CreatePipeline env s create)) = cache s \<and> \<not> list_ex is_upsert evs)"
  proof (rule CreatePipeline_outcomes [of env s create])
    fix err evs
    assume "CreatePipeline env s create = (Inl err, s\<lparr>trace := trace s @ evs\<rparr>)"
      and "evs = [BeginTx] \<or> evs = [BeginTx, Query insert_stmt (insert_args create), Rollback]
           \<or> evs = [BeginTx, Query insert_stmt (insert_args create), Commit False, Rollback]"
    then show ?thesis
      by (intro exI [of _ evs]) auto
  next
    fix err
    assume "begin_err env = None" "commit_err env = None"
      and "CreatePipeline env s create =
             (Inl err,
              s\<lparr>rows := rows s @ [inserted_row env (begin_tx s) create],
                next_id := next_id s + 1,
                trace := trace s @ [BeginTx, Query insert_stmt (insert_args create), Commit True,
                  UpsertCache (next_id s) (inserted_row env (begin_tx s) create), Rollback]\<rparr>)"
    then show ?thesis
      by (intro exI [of _ "[BeginTx, Query insert_stmt (insert_args create), Commit True,
                  UpsertCache (next_id s) (inserted_row env (begin_tx s) create), Rollback]"]) simp
  next
    assume "begin_err env = None" "commit_err env = None"
      and "CreatePipeline env s create =
       (Inr (inserted_row env (begin_tx s) create),
        s\<lparr>rows := rows s @ [inserted_row env (begin_tx s) create],
          next_id := next_id s + 1,
          cache := (cache s)(next_id s \<mapsto> inserted_row env (begin_tx s) create),
          trace := trace s @ [BeginTx, Query insert_stmt (insert_args create), Commit True,
            UpsertCache (next_id s) (inserted_row env (begin_tx s) create), Rollback]\<rparr>)"
    then show ?thesis
      by (intro exI [of _ "[BeginTx, Query insert_stmt (insert_args create), Commit True,
                  UpsertCache (next_id s) (inserted_row env (begin_tx s) create), Rollback]"]) simp
  qed
next
  show "\<exists>evs. trace (snd (PatchPipeline env s patch)) = trace s @ evs \<and>
          upserts_after_commit False evs \<and>
          (begin_err env \<noteq> None \<or> commit_err env \<noteq> None \<longrightarrow> Commit True \<notin> set evs) \<and>
          (Commit True \<notin> set evs \<longrightarrow>
             cache (snd (PatchPipeline env s patch)) = cache s \<and> \<not> list_ex is_upsert evs)"
  proof (rule PatchPipeline_outcomes [of env s patch])
    fix err evs
    assume "PatchPipeline env s patch = (Inl err, s\<lparr>trace := trace s @ evs\<rparr>)"
      and "evs = [BeginTx] \<or> evs = [BeginTx, patch_query patch, Rollback]
           \<or> evs = [BeginTx, patch_query patch, Commit False, Rollback]"
    then show ?thesis
      by (intro exI [of _ evs]) (auto simp add: patch_query_def)
  next
    fix err r rest
    assume "begin_err env = None" "commit_err env = None"
      and "PatchPipeline env s patch =
             (Inl err,
              s\<lparr>rows := patched_rows env patch (rows s),
                trace := trace s @ [BeginTx, patch_query patch, Commit True,
                  UpsertCache (patch_ID patch) (patched_row env patch r), Rollback]\<rparr>)"
    then show ?thesis
      by (intro exI [of _ "[BeginTx, patch_query patch, Commit True,
                  UpsertCache (patch_ID patch) (patched_row env patch r), Rollback]"])
        (simp add: patch_query_def)
  next
    fix r rest
    assume "begin_err env = None" "commit_err env = None"
      and "PatchPipeline env s patch =
             (Inr (patched_row env patch r),
              s\<lparr>rows := patched_rows env patch (rows s),
                cache := (cache s)(patch_ID patch \<mapsto> patched_row env patch r),
                trace := trace s @ [BeginTx, patch_query patch, Commit True,
                  UpsertCache (patch_ID patch) (patched_row env patch r), Rollback]\<rparr>)"
    then show ?thesis
      by (intro exI [of _ "[BeginTx, patch_query patch, Commit True,
                  UpsertCache (patch_ID patch) (patched_row env patch r), Rollback]"])
        (simp add: patch_query_def)
  qed
qed

theorem cache_write_only_after_commit_witness:
  "trace (snd (CreatePipeline commit_down_env one_done release_create)) =
     [BeginTx, Query insert_stmt (insert_args release_create), Commit False, Rollback] \<and>
   cache (snd (CreatePipeline commit_down_env one_done release_create)) = cache one_done \<and>
   trace (snd (PatchPipeline commit_down_env one_done reopen_patch)) =
     [BeginTx, patch_query reopen_patch, Commit False, Rollback] \<and>
   cache (snd (PatchPipeline commit_down_env one_done reopen_patch)) = cache one_done"
proof -
  have tc:
    "trace (snd (CreatePipeline commit_down_env one_done release_create)) =
       [BeginTx, Query insert_stmt (insert_args release_create), Commit False, Rollback]"
    using CreatePipeline_commit_fails [OF commit_down_env_calls(1)
        createPipeline_ok [OF commit_down_env_calls(2,3,4)] commit_down_env_calls(5)]
    by (simp add: one_done_fields)
  have "patchPipeline commit_down_env (begin_tx one_done) reopen_patch =
          (Inr (patched_row commit_down_env reopen_patch done_row),
           after_update commit_down_env (begin_tx one_done) reopen_patch,
           [patch_query reopen_patch])"
    by (simp add: patchPipeline_query_ok commit_down_env_calls begin_tx_def one_done_targets)
  from PatchPipeline_commit_fails [OF commit_down_env_calls(1) this commit_down_env_calls(5)]
  have tp:
    "trace (snd (PatchPipeline commit_down_env one_done reopen_patch)) =
       [BeginTx, patch_query reopen_patch, Commit False, Rollback]"
    by (simp add: one_done_fields)
  from cache_write_only_after_commit [of commit_down_env one_done release_create reopen_patch]
  obtain evs1 evs2
    where c: "trace (snd (CreatePipeline commit_down_env one_done release_create)) =
                trace one_done @ evs1"
      "Commit True \<notin> set evs1 \<longrightarrow>
         cache (snd (CreatePipeline commit_down_env one_done release_create)) = cache one_done \<and>
         \<not> list_ex is_upsert evs1"
      and p: "trace (snd (PatchPipeline commit_down_env one_done reopen_patch)) =
                trace one_done @ evs2"
      "Commit True \<notin> set evs2 \<longrightarrow>
         cache (snd (PatchPipeline commit_down_env one_done reopen_patch)) = cache one_done \<and>
         \<not> list_ex is_upsert evs2"
    by blast
  from c(1) tc have "Commit True \<notin> set evs1"
    by (auto simp add: one_done_fields)
  with c(2) have cc: "cache (snd (CreatePipeline commit_down_env one_done release_create)) = cache one_done"
    by blast
  from p(1) tp have "Commit True \<notin> set evs2"
    by (auto simp add: one_done_fields patch_query_def)
  with p(2) have cp: "cache (snd (PatchPipeline commit_down_env one_done reopen_patch)) = cache one_done"
    by blast
  from tc cc tp cp show ?thesis by blast
qed

subsection \<open>A pipeline is created \<^verbatim>\<open>OPEN\<close> (C3)\<close>

text \<open>
  C3. For every create request the row of the INSERT has \<open>creator_id\<close> and
  \<open>updater_id\<close> equal to the request's \<^verbatim>\<open>CreatorID\<close> and status \<^verbatim>\<open>OPEN\<close>. The
  committed table after \<^verbatim>\<open>CreatePipeline\<close> is the old one, or the old one with exactly
  that row appended; an entity that is returned is that row (read back through
  RETURNING and \<^verbatim>\<open>Scan\<close>), so its status is \<^verbatim>\<open>OPEN\<close>; and when no store call fails
  the row is committed, and returned when the cache write succeeds too.
\<close>

theorem CreatePipeline_inserts_one_OPEN_row:
  "let r = inserted_row env (begin_tx s) create in
     CreatorID r = create_CreatorID create \<and>
     UpdaterID r = create_CreatorID create \<and>
     Status r = ''OPEN'' \<and>
     (rows (snd (CreatePipeline env s create)) = rows s \<or>
      rows (snd (CreatePipeline env s create)) = rows s @ [r]) \<and>
     (\<forall>p. fst (CreatePipeline env s create) = Inr p \<longrightarrow>
          p = r \<and> rows (snd (CreatePipeline env s create)) = rows s @ [r]) \<and>
     (begin_err env = None \<and> query_err env = None \<and> rows_err env = None \<and>
      scan_err env = None \<and> commit_err env = None \<longrightarrow>
        rows (snd (CreatePipeline env s create)) = rows s @ [r] \<and>
        (upsert_err env (next_id s) = None \<longrightarrow> fst (CreatePipeline env s create) = Inr r))"
proof -
  have fields:
    "CreatorID (inserted_row env (begin_tx s) create) = create_CreatorID create"
    "UpdaterID (inserted_row env (begin_tx s) create) = create_CreatorID create"
    "Status (inserted_row env (begin_tx s) create) = ''OPEN''"
    by (simp_all add: inserted_row_def)
  have stored:
    "(rows (snd (CreatePipeline env s create)) = rows s \<or>
      rows (snd (CreatePipeline env s create)) = rows s @ [inserted_row env (begin_tx s) create]) \<and>
     (\<forall>p. fst (CreatePipeline env s create) = Inr p \<longrightarrow>
          p = inserted_row env (begin_tx s) create \<and>
          rows (snd (CreatePipeline env s create)) = rows s @ [inserted_row env (begin_tx s) create])"
    by (rule CreatePipeline_outcomes [of env s create]) simp_all
  have ok:
    "begin_err env = None \<and> query_err env = None \<and> rows_err env = None \<and>
     scan_err env = None \<and> commit_err env = None \<longrightarrow>
       rows (snd (CreatePipeline env s create)) = rows s @ [inserted_row env (begin_tx s) create] \<and>
       (upsert_err env (next_id s) = None \<longrightarrow>
          fst (CreatePipeline env s create) = Inr (inserted_row env (begin_tx s) create))"
    by (auto simp add: CreatePipeline_all_ok split: option.splits)
  from fields stored ok show ?thesis
    unfolding Let_def by blast
qed

theorem CreatePipeline_inserts_one_OPEN_row_witness:
  "fst (CreatePipeline sound_env one_done release_create) =
     Inr \<lparr>ID = 2, CreatorID = 5, CreatedTs = 100, UpdaterID = 5, UpdatedTs = 100,
          Name = ''release-44'', Status = ''OPEN''\<rparr> \<and>
   rows (snd (CreatePipeline sound_env one_done release_create)) =
     [done_row,
      \<lparr>ID = 2, CreatorID = 5, CreatedTs = 100, UpdaterID = 5, UpdatedTs = 100,
       Name = ''release-44'', Status = ''OPEN''\<rparr>]"
proof -
  have ok:
    "begin_err sound_env = None \<and> query_err sound_env = None \<and> rows_err sound_env = None \<and>
     scan_err sound_env = None \<and> commit_err sound_env = None"
    and up: "upsert_err sound_env (next_id one_done) = None"
    by (simp_all add: sound_env_def)
  have r:
    "inserted_row sound_env (begin_tx one_done) release_create =
       \<lparr>ID = 2, CreatorID = 5, CreatedTs = 100, UpdaterID = 5, UpdatedTs = 100,
        Name = ''release-44'', Status = ''OPEN''\<rparr>"
    by (simp add: inserted_row_def begin_tx_def one_done_def release_create_def sound_env_def)
  from CreatePipeline_inserts_one_OPEN_row [of sound_env one_done release_create, unfolded Let_def]
    ok up
  have "rows (snd (CreatePipeline sound_env one_done release_create)) =
          rows one_done @ [inserted_row sound_env (begin_tx one_done) release_create] \<and>
        fst (CreatePipeline sound_env one_done release_create) =
          Inr (inserted_row sound_env (begin_tx one_done) release_create)"
    by blast
  moreover have "rows one_done = [done_row]"
    by (simp add: one_done_def)
  ultimately show ?thesis
    by (simp add: r)
qed

subsection \<open>Patching an id that is not in the table (C4)\<close>

text \<open>
  C4. For every \<^verbatim>\<open>PatchPipeline\<close> request whose id matches no row of the table (the
  transaction begins and the UPDATE runs), the operation fails with the \<^verbatim>\<open>NotFound\<close>
  error that names the pipeline and the id, the table and the cache are unchanged and
  no cache upsert is among the calls made. The error passes through \<^verbatim>\<open>FormatError\<close>,
  which is taken to leave it as it is.
\<close>

theorem PatchPipeline_missing_id:
  assumes "begin_err env = None" "query_err env = None"
    and "\<forall>r\<in>set (rows s). ID r \<noteq> patch_ID patch"
    and "FormatError env
           (CommonError NotFound (Errorf ''pipeline ID not found: %d'' [IntOperand (patch_ID patch)])) =
         CommonError NotFound (Errorf ''pipeline ID not found: %d'' [IntOperand (patch_ID patch)])"
  shows "fst (PatchPipeline env s patch) =
           Inl (CommonError NotFound
                  (Errorf ''pipeline ID not found: %d'' [IntOperand (patch_ID patch)])) \<and>
         cache (snd (PatchPipeline env s patch)) = cache s \<and>
         rows (snd (PatchPipeline env s patch)) = rows s \<and>
         trace (snd (PatchPipeline env s patch)) = trace s @ [BeginTx, patch_query patch, Rollback] \<and>
         \<not> list_ex is_upsert [BeginTx, patch_query patch, Rollback]"
  using PatchPipeline_zero_rows [OF assms(1,2) patch_targets_none [OF assms(3)]] assms(4)
  by (simp add: not_found_error_def patch_query_def)

theorem PatchPipeline_missing_id_witness:
  "fst (PatchPipeline sound_env one_done missing_patch) =
     Inl (CommonError NotFound (Errorf ''pipeline ID not found: %d'' [IntOperand 5])) \<and>
   cache (snd (PatchPipeline sound_env one_done missing_patch)) = cache one_done \<and>
   rows (snd (PatchPipeline sound_env one_done missing_patch)) = [done_row]"
proof -
  have ids: "\<forall>r\<in>set (rows one_done). ID r \<noteq> patch_ID missing_patch"
    by (simp add: one_done_def done_row_def missing_patch_def)
  have "patch_ID missing_patch = 5"
    by (simp add: missing_patch_def)
  with PatchPipeline_missing_id [OF sound_env_calls(1,2) ids sound_env_calls(8)]
  show ?thesis
    by (simp add: one_done_fields)
qed

subsection \<open>The result of a store lookup by row count (C5)\<close>

text \<open>
  C5, as amended. For every \<^verbatim>\<open>FindPipeline\<close> request that reaches the store (no id, or
  a cache miss) and whose store calls succeed, the result follows the number of rows that
  match the filters: none gives \<^verbatim>\<open>(nil, nil)\<close>; exactly one gives that row when the
  cache upsert of it succeeds, and \<^verbatim>\<open>nil\<close> with the cache's error when the upsert fails;
  more than one gives the \<^verbatim>\<open>Conflict\<close> error whose message has the number of matching
  rows and "expect 1".
\<close>

theorem FindPipeline_by_row_count:
  assumes "case find_ID find' of
             None \<Rightarrow> True
           | Some i \<Rightarrow> find_cache_err env = None \<and> cache s i = None"
    and "begin_err env = None" "query_err env = None" "rows_err env = None" "scan_err env = None"
  shows "fst (FindPipeline env s find') =
           (case filter (find_matches find') (rows s) of
              [] \<Rightarrow> Inr None
            | [p] \<Rightarrow> (case upsert_err env (ID p) of None \<Rightarrow> Inr (Some p) | Some err \<Rightarrow> Inl err)
            | p # q # rest \<Rightarrow>
                Inl (CommonError Conflict
                       (Errorf ''found %d pipelines with filter %+v, expect 1''
                          [IntOperand (int (length (filter (find_matches find') (rows s)))),
                           FindOperand find'])))"
proof -
  have store: "\<And>s'. rows s' = rows s \<Longrightarrow>
      fst (FindPipeline_store env s' find') =
           (case filter (find_matches find') (rows s) of
              [] \<Rightarrow> Inr None
            | [p] \<Rightarrow> (case upsert_err env (ID p) of None \<Rightarrow> Inr (Some p) | Some err \<Rightarrow> Inl err)
            | p # q # rest \<Rightarrow>
                Inl (conflict_error (length (filter (find_matches find') (rows s))) find'))"
    by (simp add: FindPipeline_store_ok [OF assms(2-5)] split: list.splits option.splits)
  show ?thesis
  proof (cases "find_ID find'")
    case None
    with store [of s] show ?thesis
      by (simp add: FindPipeline_no_id conflict_error_def split: list.splits)
  next
    case (Some i)
    with assms(1) have "find_cache_err env = None" "cache s i = None" by simp_all
    from FindPipeline_miss [OF Some this] store [of "s\<lparr>trace := trace s @ [FindCache i]\<rparr>"]
    show ?thesis
      by (simp add: conflict_error_def split: list.splits)
  qed
qed

lemma two_rows_matches:
  "filter (find_matches \<lparr>find_ID = None, find_Status = None\<rparr>) (rows two_rows) =
     [done_row, open_row]"
  "filter (find_matches \<lparr>find_ID = None, find_Status = Some ''OPEN''\<rparr>) (rows two_rows) =
     [open_row]"
  "filter (find_matches \<lparr>find_ID = Some 5, find_Status = None\<rparr>) (rows two_rows) = []"
  by (simp_all add: find_matches_def two_rows_def done_row_def open_row_def)

theorem FindPipeline_by_row_count_witness:
  "fst (FindPipeline sound_env two_rows \<lparr>find_ID = None, find_Status = None\<rparr>) =
     Inl (CommonError Conflict
            (Errorf ''found %d pipelines with filter %+v, expect 1''
               [IntOperand 2, FindOperand \<lparr>find_ID = None, find_Status = None\<rparr>])) \<and>
   fst (FindPipeline sound_env two_rows \<lparr>find_ID = None, find_Status = Some ''OPEN''\<rparr>) =
     Inr (Some open_row) \<and>
   fst (FindPipeline sound_env two_rows \<lparr>find_ID = Some 5, find_Status = None\<rparr>) = Inr None"
proof -
  have r:
    "case find_ID \<lparr>find_ID = None, find_Status = None\<rparr> of None \<Rightarrow> True
     | Some i \<Rightarrow> find_cache_err sound_env = None \<and> cache two_rows i = None"
    "case find_ID \<lparr>find_ID = None, find_Status = Some ''OPEN''\<rparr> of None \<Rightarrow> True
     | Some i \<Rightarrow> find_cache_err sound_env = None \<and> cache two_rows i = None"
    "case find_ID \<lparr>find_ID = Some 5, find_Status = None\<rparr> of None \<Rightarrow> True
     | Some i \<Rightarrow> find_cache_err sound_env = None \<and> cache two_rows i = None"
    by (simp_all add: sound_env_calls two_rows_def)
  from FindPipeline_by_row_count [OF r(1) sound_env_calls(1-4)]
       FindPipeline_by_row_count [OF r(2) sound_env_calls(1-4)]
       FindPipeline_by_row_count [OF r(3) sound_env_calls(1-4)]
  show ?thesis
    by (simp add: two_rows_matches sound_env_calls(6))
qed

text \<open>
  C5 as stated fails: with every store call succeeding and exactly one row matching the
  request, a cache service that refuses the upsert makes \<^verbatim>\<open>FindPipeline\<close> return the
  cache's error and no entity.
\<close>

theorem FindPipeline_one_row_cache_down_counterexample:
  "find_ID \<lparr>find_ID = None, find_Status = Some ''OPEN''\<rparr> = None \<and>
   begin_err cache_down_env = None \<and> query_err cache_down_env = None \<and>
   rows_err cache_down_env = None \<and> scan_err cache_down_env = None \<and>
   filter (find_matches \<lparr>find_ID = None, find_Status = Some ''OPEN''\<rparr>) (rows two_rows) =
     [open_row] \<and>
   fst (FindPipeline cache_down_env two_rows \<lparr>find_ID = None, find_Status = Some ''OPEN''\<rparr>) =
     Inl (External ''cache unavailable'') \<and>
   fst (FindPipeline cache_down_env two_rows \<lparr>find_ID = None, find_Status = Some ''OPEN''\<rparr>) \<noteq>
     Inr (Some open_row)"
proof -
  have "FindPipeline cache_down_env two_rows \<lparr>find_ID = None, find_Status = Some ''OPEN''\<rparr> =
          FindPipeline_store cache_down_env two_rows \<lparr>find_ID = None, find_Status = Some ''OPEN''\<rparr>"
    by (simp add: FindPipeline_no_id)
  then have "fst (FindPipeline cache_down_env two_rows
                    \<lparr>find_ID = None, find_Status = Some ''OPEN''\<rparr>) =
               Inl (External ''cache unavailable'')"
    by (simp add: FindPipeline_store_ok [OF cache_down_env_calls(1-4)] two_rows_matches
        cache_down_env_calls(6))
  then show ?thesis
    by (simp add: cache_down_env_calls two_rows_matches)
qed

subsection \<open>The cache is probed first (C6)\<close>

text \<open>
  C6. For every \<^verbatim>\<open>FindPipeline\<close> request with an id, the first call is the cache probe
  for that id; on a hit the cached entity is returned and the probe is the only call:
  no transaction is opened, and table and cache are as before.
\<close>

theorem FindPipeline_cache_first:
  assumes "find_ID find' = Some i"
  shows "(\<exists>evs. trace (snd (FindPipeline env s find')) = trace s @ FindCache i # evs) \<and>
         (\<forall>p. find_cache_err env = None \<and> cache s i = Some p \<longrightarrow>
            fst (FindPipeline env s find') = Inr (Some p) \<and>
            trace (snd (FindPipeline env s find')) = trace s @ [FindCache i] \<and>
            \<not> list_ex opens_tx [FindCache i] \<and>
            rows (snd (FindPipeline env s find')) = rows s \<and>
            cache (snd (FindPipeline env s find')) = cache s)"
proof
  show "\<exists>evs. trace (snd (FindPipeline env s find')) = trace s @ FindCache i # evs"
  proof (cases "find_cache_err env")
    case (Some err)
    from FindPipeline_probe_fails [OF assms Some] show ?thesis by simp
  next
    case None
    show ?thesis
    proof (cases "cache s i")
      case (Some p)
      from FindPipeline_hit [OF assms None Some] show ?thesis by simp
    next
      case miss: None
      from FindPipeline_store_trace [of env "s\<lparr>trace := trace s @ [FindCache i]\<rparr>" find']
      show ?thesis
        by (auto simp add: FindPipeline_miss [OF assms None miss])
    qed
  qed
next
  show "\<forall>p. find_cache_err env = None \<and> cache s i = Some p \<longrightarrow>
            fst (FindPipeline env s find') = Inr (Some p) \<and>
            trace (snd (FindPipeline env s find')) = trace s @ [FindCache i] \<and>
            \<not> list_ex opens_tx [FindCache i] \<and>
            rows (snd (FindPipeline env s find')) = rows s \<and>
            cache (snd (FindPipeline env s find')) = cache s"
    by (auto simp add: FindPipeline_hit [OF assms])
qed

theorem FindPipeline_cache_first_witness:
  "fst (FindPipeline sound_env two_rows \<lparr>find_ID = Some 1, find_Status = None\<rparr>) =
     Inr (Some done_row) \<and>
   trace (snd (FindPipeline sound_env two_rows \<lparr>find_ID = Some 1, find_Status = None\<rparr>)) =
     [FindCache 1]"
proof -
  have "find_ID \<lparr>find_ID = Some 1, find_Status = None\<rparr> = Some 1" by simp
  from FindPipeline_cache_first [OF this, of sound_env two_rows]
    sound_env_calls(7) two_rows_fields(2)
  have "fst (FindPipeline sound_env two_rows \<lparr>find_ID = Some 1, find_Status = None\<rparr>) =
          Inr (Some done_row) \<and>
        trace (snd (FindPipeline sound_env two_rows \<lparr>find_ID = Some 1, find_Status = None\<rparr>)) =
          trace two_rows @ [FindCache 1]"
    by blast
  then show ?thesis
    by (simp add: two_rows_fields)
qed

subsection \<open>What the UPDATE of a patch touches (C7)\<close>

text \<open>
  C7. For every \<^verbatim>\<open>PatchPipeline\<close> request the UPDATE sets \<open>updater_id\<close> to the
  request's \<^verbatim>\<open>UpdaterID\<close>, sets \<open>status\<close> exactly when the request has one, and
  selects by the request's id. In the committed table every row keeps its id,
  \<open>creator_id\<close>, \<open>created_ts\<close> and name, and its status too when the request has
  none; rows with another id are unchanged; and when the patch succeeds the rows with
  that id have the new \<open>updater_id\<close> and the requested status.
\<close>

theorem PatchPipeline_frame:
  "fst (patch_update patch) =
     Update ((Col_updater_id, Param 1) #
             (case patch_Status patch of Some v \<Rightarrow> [(Col_status, Param 2)] | None \<Rightarrow> []))
            (Eq Col_id (Param (length (snd (patch_update patch))))) pipeline_columns \<and>
   eval_expr (snd (patch_update patch)) (Param 1) = Some (IntV (patch_UpdaterID patch)) \<and>
   (\<forall>v. patch_Status patch = Some v \<longrightarrow>
        eval_expr (snd (patch_update patch)) (Param 2) = Some (StrV v)) \<and>
   eval_expr (snd (patch_update patch)) (Param (length (snd (patch_update patch)))) =
     Some (IntV (patch_ID patch)) \<and>
   map ID (rows (snd (PatchPipeline env s patch))) = map ID (rows s) \<and>
   map CreatorID (rows (snd (PatchPipeline env s patch))) = map CreatorID (rows s) \<and>
   map CreatedTs (rows (snd (PatchPipeline env s patch))) = map CreatedTs (rows s) \<and>
   map Name (rows (snd (PatchPipeline env s patch))) = map Name (rows s) \<and>
   (patch_Status patch = None \<longrightarrow>
      map Status (rows (snd (PatchPipeline env s patch))) = map Status (rows s)) \<and>
   (\<forall>k < length (rows s). ID (rows s ! k) \<noteq> patch_ID patch \<longrightarrow>
      rows (snd (PatchPipeline env s patch)) ! k = rows s ! k) \<and>
   (\<forall>p. fst (PatchPipeline env s patch) = Inr p \<longrightarrow>
      UpdaterID p = patch_UpdaterID patch \<and>
      (\<forall>v. patch_Status patch = Some v \<longrightarrow> Status p = v) \<and>
      list_all (\<lambda>r. ID r = patch_ID patch \<longrightarrow>
                  UpdaterID r = patch_UpdaterID patch \<and>
                  (\<forall>v. patch_Status patch = Some v \<longrightarrow> Status r = v))
        (rows (snd (PatchPipeline env s patch))))"
proof -
  have stmt:
    "fst (patch_update patch) =
       Update ((Col_updater_id, Param 1) #
               (case patch_Status patch of Some v \<Rightarrow> [(Col_status, Param 2)] | None \<Rightarrow> []))
              (Eq Col_id (Param (length (snd (patch_update patch))))) pipeline_columns"
    "eval_expr (snd (patch_update patch)) (Param 1) = Some (IntV (patch_UpdaterID patch))"
    "\<forall>v. patch_Status patch = Some v \<longrightarrow>
        eval_expr (snd (patch_update patch)) (Param 2) = Some (StrV v)"
    "eval_expr (snd (patch_update patch)) (Param (length (snd (patch_update patch)))) =
       Some (IntV (patch_ID patch))"
    by (simp_all add: patch_update_def split: option.splits)
  have frame:
    "map ID (rows (snd (PatchPipeline env s patch))) = map ID (rows s)"
    "map CreatorID (rows (snd (PatchPipeline env s patch))) = map CreatorID (rows s)"
    "map CreatedTs (rows (snd (PatchPipeline env s patch))) = map CreatedTs (rows s)"
    "map Name (rows (snd (PatchPipeline env s patch))) = map Name (rows s)"
    "patch_Status patch = None \<longrightarrow>
       map Status (rows (snd (PatchPipeline env s patch))) = map Status (rows s)"
    using PatchPipeline_rows [of env s patch] by (auto simp add: patched_rows_frame)
  have other:
    "\<forall>k < length (rows s). ID (rows s ! k) \<noteq> patch_ID patch \<longrightarrow>
       rows (snd (PatchPipeline env s patch)) ! k = rows s ! k"
    using PatchPipeline_rows [of env s patch] by (auto simp add: patched_rows_other)
  have written:
    "\<forall>p. fst (PatchPipeline env s patch) = Inr p \<longrightarrow>
       UpdaterID p = patch_UpdaterID patch \<and>
       (\<forall>v. patch_Status patch = Some v \<longrightarrow> Status p = v) \<and>
       list_all (\<lambda>r. ID r = patch_ID patch \<longrightarrow>
                   UpdaterID r = patch_UpdaterID patch \<and>
                   (\<forall>v. patch_Status patch = Some v \<longrightarrow> Status r = v))
         (rows (snd (PatchPipeline env s patch)))"
  proof (intro allI impI)
    fix p
    assume "fst (PatchPipeline env s patch) = Inr p"
    from PatchPipeline_Inr_row [OF this] obtain r rest
      where p: "p = patched_row env patch r"
        and rws: "rows (snd (PatchPipeline env s patch)) = patched_rows env patch (rows s)"
      by blast
    show "UpdaterID p = patch_UpdaterID patch \<and>
       (\<forall>v. patch_Status patch = Some v \<longrightarrow> Status p = v) \<and>
       list_all (\<lambda>r. ID r = patch_ID patch \<longrightarrow>
                   UpdaterID r = patch_UpdaterID patch \<and>
                   (\<forall>v. patch_Status patch = Some v \<longrightarrow> Status r = v))
         (rows (snd (PatchPipeline env s patch)))"
      unfolding rws p
      by (auto simp add: patched_rows_def list_all_iff patched_row_UpdaterID patched_row_Status)
  qed
  from stmt frame other written show ?thesis
    by blast
qed

theorem PatchPipeline_frame_witness:
  "fst (PatchPipeline sound_env one_done touch_patch) =
     Inr \<lparr>ID = 1, CreatorID = 7, CreatedTs = 50, UpdaterID = 9, UpdatedTs = 51,
          Name = ''release-42'', Status = ''DONE''\<rparr> \<and>
   map Status (rows (snd (PatchPipeline sound_env one_done touch_patch))) = [''DONE''] \<and>
   map Name (rows (snd (PatchPipeline sound_env one_done touch_patch))) = [''release-42''] \<and>
   map UpdaterID (rows (snd (PatchPipeline sound_env one_done touch_patch))) = [9]"
proof -
  have row: "patched_row sound_env touch_patch done_row =
      \<lparr>ID = 1, CreatorID = 7, CreatedTs = 50, UpdaterID = 9, UpdatedTs = 51,
       Name = ''release-42'', Status = ''DONE''\<rparr>"
    by (simp add: patched_row_def sound_env_def touch_patch_def done_row_def)
  have res: "fst (PatchPipeline sound_env one_done touch_patch) =
               Inr (patched_row sound_env touch_patch done_row)"
    and rws: "rows (snd (PatchPipeline sound_env one_done touch_patch)) =
                patched_rows sound_env touch_patch [done_row]"
    using PatchPipeline_target_ok [OF sound_env_calls(1-5) one_done_targets(2)]
    by (simp_all add: sound_env_calls(6) one_done_fields)
  have nil: "patch_Status touch_patch = None"
    by (simp add: touch_patch_def)
  from PatchPipeline_frame [of touch_patch sound_env one_done] nil
  have "map Status (rows (snd (PatchPipeline sound_env one_done touch_patch))) =
          map Status (rows one_done)"
    and "map Name (rows (snd (PatchPipeline sound_env one_done touch_patch))) =
          map Name (rows one_done)"
    by blast+
  moreover have "map UpdaterID (rows (snd (PatchPipeline sound_env one_done touch_patch))) = [9]"
    unfolding rws by (simp add: patched_rows_def row) (simp add: done_row_def touch_patch_def)
  ultimately show ?thesis
    using res row by (simp add: one_done_fields) (simp add: done_row_def)
qed

subsection \<open>An error after the commit (C8)\<close>

text \<open>
  C8. When every store call succeeds and the cache upsert fails, \<^verbatim>\<open>CreatePipeline\<close>
  returns the cache's error although the commit succeeded and the new row is in the
  table; \<^verbatim>\<open>PatchPipeline\<close> on an existing row does the same, the table holding the
  updated rows. Such executions exist (the instance below), so an error from either operation
  does not mean the table is unchanged.
\<close>

theorem error_return_after_commit:
  assumes "begin_err env = None" "query_err env = None" "rows_err env = None"
    "scan_err env = None" "commit_err env = None"
  shows "(upsert_err env (next_id s) = Some err \<longrightarrow>
            fst (CreatePipeline env s create) = Inl err \<and>
            Commit True \<in> set (trace (snd (CreatePipeline env s create))) \<and>
            rows (snd (CreatePipeline env s create)) =
              rows s @ [inserted_row env (begin_tx s) create] \<and>
            rows (snd (CreatePipeline env s create)) \<noteq> rows s) \<and>
         (upsert_err env (patch_ID patch) = Some err \<and> patch_targets patch (rows s) = r # rest \<longrightarrow>
            fst (PatchPipeline env s patch) = Inl err \<and>
            Commit True \<in> set (trace (snd (PatchPipeline env s patch))) \<and>
            rows (snd (PatchPipeline env s patch)) = patched_rows env patch (rows s) \<and>
            (UpdaterID r \<noteq> patch_UpdaterID patch \<longrightarrow>
               rows (snd (PatchPipeline env s patch)) \<noteq> rows s))"
proof (intro conjI impI)
  assume up: "upsert_err env (next_id s) = Some err"
  note eq = CreatePipeline_all_ok [OF assms, of s create]
  show "fst (CreatePipeline env s create) = Inl err"
    by (simp add: eq up)
  show "Commit True \<in> set (trace (snd (CreatePipeline env s create)))"
    by (simp add: eq up)
  show "rows (snd (CreatePipeline env s create)) = rows s @ [inserted_row env (begin_tx s) create]"
    by (simp add: eq up)
  show "rows (snd (CreatePipeline env s create)) \<noteq> rows s"
    by (simp add: eq up)
next
  assume a: "upsert_err env (patch_ID patch) = Some err \<and> patch_targets patch (rows s) = r # rest"
  then have up: "upsert_err env (patch_ID patch) = Some err"
    and tg: "patch_targets patch (rows s) = r # rest" by simp_all
  note eq = PatchPipeline_target_ok [OF assms tg]
  show "fst (PatchPipeline env s patch) = Inl err"
    by (simp add: eq up)
  show "Commit True \<in> set (trace (snd (PatchPipeline env s patch)))"
    by (simp add: eq up)
  show rws: "rows (snd (PatchPipeline env s patch)) = patched_rows env patch (rows s)"
    by (simp add: eq up)
  assume "UpdaterID r \<noteq> patch_UpdaterID patch"
  then have "patched_row env patch r \<noteq> r"
    by (metis patched_row_UpdaterID)
  from patched_rows_changed [OF patch_targets_head_in [OF tg] patch_targets_Cons_ID [OF tg] this]
  show "rows (snd (PatchPipeline env s patch)) \<noteq> rows s"
    by (simp add: rws)
qed

theorem error_return_after_commit_witness:
  "fst (CreatePipeline cache_down_env one_done release_create) = Inl (External ''cache unavailable'') \<and>
   rows (snd (CreatePipeline cache_down_env one_done release_create)) \<noteq> rows one_done \<and>
   fst (PatchPipeline cache_down_env one_done touch_patch) = Inl (External ''cache unavailable'') \<and>
   rows (snd (PatchPipeline cache_down_env one_done touch_patch)) \<noteq> rows one_done"
proof -
  have u: "UpdaterID done_row \<noteq> patch_UpdaterID touch_patch"
    by (simp add: done_row_def touch_patch_def)
  from error_return_after_commit [OF cache_down_env_calls(1-5),
      of one_done "External ''cache unavailable''" release_create touch_patch done_row "[]"]
    cache_down_env_calls(6) one_done_targets(2) u
  show ?thesis by blast
qed

subsection \<open>A cache hit ignores the other filters (C9)\<close>

text \<open>
  C9. For every \<^verbatim>\<open>FindPipeline\<close> request with an id for which the cache holds an entry
  (and the probe does not fail), the cached entity is returned whatever the request's
  status filter is: the outcome is that of the same request without the filter. There
  is a request with a status filter whose result has another status.
\<close>

theorem FindPipeline_hit_ignores_filters:
  assumes "find_cache_err env = None" "cache s i = Some p"
  shows "fst (FindPipeline env s \<lparr>find_ID = Some i, find_Status = status\<rparr>) = Inr (Some p) \<and>
         FindPipeline env s \<lparr>find_ID = Some i, find_Status = status\<rparr> =
           FindPipeline env s \<lparr>find_ID = Some i, find_Status = None\<rparr> \<and>
         (\<exists>env' s' i' v p'.
            fst (FindPipeline env' s' \<lparr>find_ID = Some i', find_Status = Some v\<rparr>) = Inr (Some p') \<and>
            Status p' \<noteq> v)"
proof -
  have hit: "\<And>st. FindPipeline env s \<lparr>find_ID = Some i, find_Status = st\<rparr> =
                 (Inr (Some p), s\<lparr>trace := trace s @ [FindCache i]\<rparr>)"
    using assms by (simp add: FindPipeline_hit)
  have "fst (FindPipeline sound_env two_rows \<lparr>find_ID = Some 1, find_Status = Some ''OPEN''\<rparr>) =
          Inr (Some done_row) \<and> Status done_row \<noteq> ''OPEN''"
    by (simp add: FindPipeline_hit sound_env_calls two_rows_fields) (simp add: done_row_def)
  then have "\<exists>env' s' i' v p'.
      fst (FindPipeline env' s' \<lparr>find_ID = Some i', find_Status = Some v\<rparr>) = Inr (Some p') \<and>
      Status p' \<noteq> v"
    by blast
  with hit show ?thesis by simp
qed

theorem FindPipeline_hit_ignores_filters_witness:
  "fst (FindPipeline sound_env two_rows \<lparr>find_ID = Some 1, find_Status = Some ''OPEN''\<rparr>) =
     Inr (Some done_row) \<and>
   Status done_row = ''DONE''"
proof -
  from FindPipeline_hit_ignores_filters [OF sound_env_calls(7) two_rows_fields(2), of "Some ''OPEN''"]
  have "fst (FindPipeline sound_env two_rows \<lparr>find_ID = Some 1, find_Status = Some ''OPEN''\<rparr>) =
          Inr (Some done_row)"
    by blast
  moreover have "Status done_row = ''DONE''"
    by (simp add: done_row_def)
  ultimately show ?thesis by blast
qed

subsection \<open>\<^verbatim>\<open>ToProjectMember\<close> (C10)\<close>

text \<open>
  C10. For every \<^verbatim>\<open>ProjectMemberRaw\<close> value, \<^verbatim>\<open>ToProjectMember\<close> copies ID, CreatorID,
  CreatedTs, UpdaterID, UpdatedTs, Role, PrincipalID, RoleProvider and Payload from the
  fields of the same name, and takes the result's ProjectID from the raw value's
  PrincipalID, not from its ProjectID: there are raw values whose ProjectID the
  conversion does not preserve.
\<close>

theorem ToProjectMember_fields:
  "pm_ID (ToProjectMember raw :: 'p projectMember) = raw_ID raw \<and>
   pm_CreatorID (ToProjectMember raw :: 'p projectMember) = raw_CreatorID raw \<and>
   pm_CreatedTs (ToProjectMember raw :: 'p projectMember) = raw_CreatedTs raw \<and>
   pm_UpdaterID (ToProjectMember raw :: 'p projectMember) = raw_UpdaterID raw \<and>
   pm_UpdatedTs (ToProjectMember raw :: 'p projectMember) = raw_UpdatedTs raw \<and>
   pm_Role (ToProjectMember raw :: 'p projectMember) = raw_Role raw \<and>
   pm_PrincipalID (ToProjectMember raw :: 'p projectMember) = raw_PrincipalID raw \<and>
   pm_RoleProvider (ToProjectMember raw :: 'p projectMember) = raw_RoleProvider raw \<and>
   pm_Payload (ToProjectMember raw :: 'p projectMember) = raw_Payload raw \<and>
   pm_ProjectID (ToProjectMember raw :: 'p projectMember) = raw_PrincipalID raw \<and>
   (\<exists>raw'. pm_ProjectID (ToProjectMember raw' :: 'p projectMember) \<noteq> raw_ProjectID raw')"
proof -
  let ?r = "\<lparr>raw_ID = 1, raw_CreatorID = 1, raw_CreatedTs = 0, raw_UpdaterID = 1,
             raw_UpdatedTs = 0, raw_ProjectID = 2, raw_Role = ''OWNER'', raw_PrincipalID = 3,
             raw_RoleProvider = ''BYTEBASE'', raw_Payload = []\<rparr>"
  have "pm_ProjectID (ToProjectMember ?r :: 'p projectMember) \<noteq> raw_ProjectID ?r"
    by (simp add: ToProjectMember_def)
  then have "\<exists>raw'. pm_ProjectID (ToProjectMember raw' :: 'p projectMember) \<noteq> raw_ProjectID raw'"
    by blast
  then show ?thesis
    by (simp add: ToProjectMember_def)
qed

end
